theory Spec2Isabelle
  imports Complex_Main "HOL-Library.Char_ord" "HOL-Library.List_Lexorder"
    "HOL-Library.Product_Lexorder"
begin

section \<open>Python values used by the data module\<close>

text \<open>
  The data module (app/data.py) computes with unbounded integers, strings, lists, insertion
  ordered dictionaries and binary floating point numbers. Integers are \<open>int\<close>, strings are
  \<open>string\<close> ordered by code point (lexicographically), a dictionary is an association list
  in insertion order, and an exception is a value of \<open>py_error\<close>.
\<close>

datatype py_error = ZeroDivisionError | KeyError

subsection \<open>Floating point\<close>

text \<open>
  A finite float is modelled by the rational number it denotes. Every float operation is
  the exact operation followed by the rounding \<open>rnd\<close> of the platform, which the
  definitions take as a parameter. The exponent range is not modelled: the magnitudes of
  this program stay far inside it.
\<close>

type_synonym rounding = "rat \<Rightarrow> rat"

text \<open>What the theorems on generated values need of the rounding: it is monotone and it
  leaves every half integer of at most 53 bits unchanged.\<close>

definition float_rounding :: "rounding \<Rightarrow> bool" where
  "float_rounding rnd \<longleftrightarrow>
     mono rnd \<and> (\<forall>k::int. \<bar>k\<bar> \<le> 2 ^ 53 \<longrightarrow> rnd (of_int k / 2) = of_int k / 2)"

text \<open>A decimal literal such as \<open>0.85\<close>, and the conversion of an integer operand.\<close>

definition py_float :: "rounding \<Rightarrow> rat \<Rightarrow> rat" where
  "py_float rnd q = rnd q"

definition float_of_int :: "rounding \<Rightarrow> int \<Rightarrow> rat" where
  "float_of_int rnd n = rnd (of_int n)"

definition fmul :: "rounding \<Rightarrow> rat \<Rightarrow> rat \<Rightarrow> rat" where
  "fmul rnd x y = rnd (x * y)"

definition fadd :: "rounding \<Rightarrow> rat \<Rightarrow> rat \<Rightarrow> rat" where
  "fadd rnd x y = rnd (x + y)"

text \<open>\<open>a / b\<close> on two integers: the correctly rounded quotient, or ZeroDivisionError.\<close>

definition int_truediv :: "rounding \<Rightarrow> int \<Rightarrow> int \<Rightarrow> py_error + rat" where
  "int_truediv rnd a b =
     (if b = 0 then Inl ZeroDivisionError else Inr (rnd (of_int a / of_int b)))"

text \<open>\<open>int(x)\<close> truncates towards zero.\<close>

definition py_int :: "rat \<Rightarrow> int" where
  "py_int x = (if 0 \<le> x then \<lfloor>x\<rfloor> else \<lceil>x\<rceil>)"

text \<open>\<open>round(x, ndigits)\<close> on a float takes the multiple of \<open>10 ^ (- ndigits)\<close>
  nearest to the exact value, ties to the even multiple, and converts it back to a float.
  The integer rounding it rests on:\<close>

definition round_half_even :: "rat \<Rightarrow> int" where
  "round_half_even q =
     (let f = \<lfloor>q\<rfloor>; d = q - of_int f
      in if d < 1 / 2 then f else if 1 / 2 < d then f + 1
         else if even f then f else f + 1)"

subsection \<open>Numbers that are an integer or a float\<close>

text \<open>The attainment of a summary is the integer \<open>0\<close> on some paths and a float on
  the others. \<open>round(v, ndigits)\<close> returns an integer unchanged (for the non-negative
  \<open>ndigits\<close> used here) and rounds a float as above; numbers compare by value.\<close>

datatype pynum = PyInt int | PyFloat rat

fun num_value :: "pynum \<Rightarrow> rat" where
  "num_value (PyInt n) = of_int n"
| "num_value (PyFloat x) = x"

fun py_round :: "rounding \<Rightarrow> pynum \<Rightarrow> nat \<Rightarrow> pynum" where
  "py_round rnd (PyInt n) ndigits = PyInt n"
| "py_round rnd (PyFloat x) ndigits =
     PyFloat (rnd (of_int (round_half_even (x * 10 ^ ndigits)) / 10 ^ ndigits))"

subsection \<open>Insertion ordered dictionaries\<close>

type_synonym ('k, 'v) pydict = "('k \<times> 'v) list"

definition dict_contains :: "'k \<Rightarrow> ('k, 'v) pydict \<Rightarrow> bool" where
  "dict_contains k d = (map_of d k \<noteq> None)"

text \<open>\<open>d[k] = v\<close>: an existing key keeps its position, a new key goes last.\<close>

fun dict_set :: "'k \<Rightarrow> 'v \<Rightarrow> ('k, 'v) pydict \<Rightarrow> ('k, 'v) pydict" where
  "dict_set k v [] = [(k, v)]"
| "dict_set k v ((k', v') # d) =
     (if k' = k then (k, v) # d else (k', v') # dict_set k v d)"

text \<open>\<open>d[k]\<close>: KeyError when the key is missing.\<close>

definition dict_get :: "('k, 'v) pydict \<Rightarrow> 'k \<Rightarrow> py_error + 'v" where
  "dict_get d k = (case map_of d k of None \<Rightarrow> Inl KeyError | Some v \<Rightarrow> Inr v)"

subsection \<open>Calendar dates\<close>

text \<open>
  \<open>datetime(2026, 1, 1) + timedelta(...)\<close> and \<open>strftime("%Y-%m-%d")\<close>. Only the date
  part of the datetime is ever read, so a date is year, month and day; a timedelta is a
  number of days.
\<close>

type_synonym pydate = "int \<times> int \<times> int"

definition is_leap :: "int \<Rightarrow> bool" where
  "is_leap y \<longleftrightarrow> y mod 4 = 0 \<and> (y mod 100 \<noteq> 0 \<or> y mod 400 = 0)"

definition days_in_month :: "int \<Rightarrow> int \<Rightarrow> int" where
  "days_in_month y m =
     (if m = 2 then (if is_leap y then 29 else 28)
      else if m = 4 \<or> m = 6 \<or> m = 9 \<or> m = 11 then 30 else 31)"

fun next_day :: "pydate \<Rightarrow> pydate" where
  "next_day (y, m, d) =
     (if d < days_in_month y m then (y, m, d + 1)
      else if m < 12 then (y, m + 1, 1) else (y + 1, 1, 1))"

fun prev_day :: "pydate \<Rightarrow> pydate" where
  "prev_day (y, m, d) =
     (if 1 < d then (y, m, d - 1)
      else if 1 < m then (y, m - 1, days_in_month y (m - 1)) else (y - 1, 12, 31))"

definition timedelta_weeks :: "int \<Rightarrow> int" where
  "timedelta_weeks n = 7 * n"

definition date_add :: "pydate \<Rightarrow> int \<Rightarrow> pydate" where
  "date_add dt n = (if 0 \<le> n then (next_day ^^ nat n) dt else (prev_day ^^ nat (- n)) dt)"

definition digit_char :: "int \<Rightarrow> char" where
  "digit_char n = char_of (48 + n)"

definition pad2 :: "int \<Rightarrow> string" where
  "pad2 n = [digit_char (n div 10 mod 10), digit_char (n mod 10)]"

definition pad4 :: "int \<Rightarrow> string" where
  "pad4 n = [digit_char (n div 1000 mod 10), digit_char (n div 100 mod 10),
             digit_char (n div 10 mod 10), digit_char (n mod 10)]"

text \<open>\<open>strftime("%Y-%m-%d")\<close>, for the four digit years of this program.\<close>

fun strftime_ymd :: "pydate \<Rightarrow> string" where
  "strftime_ymd (y, m, d) = pad4 y @ ''-'' @ pad2 m @ ''-'' @ pad2 d"

section \<open>The data model\<close>

text \<open>A sales record is the dictionary that \<open>_generate_sample_data\<close> appends.\<close>

record sales_record =
  date :: string
  week :: int
  market :: string
  account :: string
  brand :: string
  rep :: string
  goal :: int
  sales_volume :: int
  displays :: int
  pods :: int
  voids :: int

definition MARKETS :: "string list" where
  "MARKETS = [''Austin'', ''Dallas'', ''Houston'', ''San Antonio'', ''Fort Worth'']"

definition ACCOUNTS :: "string list" where
  "ACCOUNTS = [''Tom Thumb'', ''Kroger'', ''Central Market'', ''Whole Foods'',
               ''Market Street'']"

text \<open>The two accented letters are the code points 0xEB and 0xE9.\<close>

definition BRANDS :: "string list" where
  "BRANDS = [''Mo'' @ [CHR 0xEB] @ ''t & Chandon'', ''Hennessy'', ''Veuve Clicquot'',
             ''Dom P'' @ [CHR 0xE9] @ ''rignon'', ''Belvedere'']"

definition REPS :: "string list" where
  "REPS = [''Martinez, J'', ''Thompson, K'', ''Williams, R'', ''Garcia, M'', ''Johnson, T'']"

section \<open>The random module\<close>

text \<open>
  The module seeds Python's \<open>random\<close> once at import and draws from it during the
  generation. The library is not part of the repository: its four functions are taken as
  parameters acting on a generator state \<open>'g\<close>, and the seeded state is the
  \<open>random_state\<close> of the initial process state.
\<close>

record 'g py_random =
  randint :: "int \<Rightarrow> int \<Rightarrow> 'g \<Rightarrow> int \<times> 'g"
  gauss :: "rat \<Rightarrow> rat \<Rightarrow> 'g \<Rightarrow> rat \<times> 'g"
  uniform :: "rat \<Rightarrow> rat \<Rightarrow> 'g \<Rightarrow> rat \<times> 'g"
  choice :: "string list \<Rightarrow> 'g \<Rightarrow> string \<times> 'g"

text \<open>The documented ranges, for \<open>a \<le> b\<close>: \<open>a \<le> randint(a, b) \<le> b\<close> and
  \<open>a \<le> uniform(a, b)\<close> (the upper end of \<open>uniform\<close> depends on rounding and is not
  needed); \<open>choice(seq)\<close> is an element of a non-empty \<open>seq\<close>.\<close>

definition random_ok :: "'g py_random \<Rightarrow> bool" where
  "random_ok R \<longleftrightarrow>
     (\<forall>a b g. a \<le> b \<longrightarrow> a \<le> fst (randint R a b g) \<and> fst (randint R a b g) \<le> b) \<and>
     (\<forall>a b g. a \<le> b \<longrightarrow> a \<le> fst (uniform R a b g)) \<and>
     (\<forall>xs g. xs \<noteq> [] \<longrightarrow> fst (choice R xs g) \<in> set xs)"

section \<open>The generator\<close>

text \<open>The process state: the module global \<open>_DATA_CACHE\<close> and the state of \<open>random\<close>.\<close>

record 'g process =
  DATA_CACHE :: "sales_record list option"
  random_state :: 'g

definition base_date :: pydate where
  "base_date = (2026, 1, 1)"

text \<open>The dictionary of multipliers with its \<open>.get(market, 1.0)\<close>.\<close>

definition market_multiplier :: "rounding \<Rightarrow> string \<Rightarrow> rat" where
  "market_multiplier rnd m =
     (case map_of [(''Dallas'', py_float rnd (12 / 10)),
                   (''Houston'', py_float rnd (11 / 10)),
                   (''Austin'', py_float rnd (95 / 100)),
                   (''San Antonio'', py_float rnd (85 / 100)),
                   (''Fort Worth'', py_float rnd (9 / 10))] m of
        Some x \<Rightarrow> x
      | None \<Rightarrow> py_float rnd 1)"

text \<open>The body of the innermost loop: the draws in the order the source makes them, the
  dictionary literal evaluated left to right.\<close>

definition make_record ::
  "'g py_random \<Rightarrow> rounding \<Rightarrow> int \<Rightarrow> string \<Rightarrow> rat \<Rightarrow> string \<Rightarrow> pydate \<Rightarrow> 'g
     \<Rightarrow> sales_record \<times> 'g" where
  "make_record R rnd wk mkt mult acct current_date g0 =
     (let (r, g1) = randint R 800 1500 g0;
          base_goal = py_int (fmul rnd (float_of_int rnd r) mult);
          (attainment, g2) = gauss R (py_float rnd 1) (py_float rnd (15 / 100)) g1;
          sales = py_int (fmul rnd (float_of_int rnd base_goal)
                    (max (py_float rnd (1 / 2)) (min (py_float rnd (3 / 2)) attainment)));
          (n_displays, g3) = randint R 0 4 g2;
          (sales, g4) =
            (if 0 < n_displays then
               (let (u, g') = uniform R (py_float rnd (5 / 100)) (py_float rnd (10 / 100)) g3;
                    display_lift =
                      fadd rnd (float_of_int rnd 1) (fmul rnd (float_of_int rnd n_displays) u)
                in (py_int (fmul rnd (float_of_int rnd sales) display_lift), g'))
             else (sales, g3));
          (b, g5) = choice R BRANDS g4;
          (rp, g6) = choice R REPS g5;
          (n_pods, g7) = randint R 0 3 g6;
          (n_voids, g8) = randint R 0 2 g7
      in (\<lparr>date = strftime_ymd current_date, week = wk, market = mkt, account = acct,
           brand = b, rep = rp, goal = base_goal, sales_volume = sales,
           displays = n_displays, pods = n_pods, voids = n_voids\<rparr>, g8))"

text \<open>The four nested \<open>for\<close> loops, each a fold over its range that carries the list
  \<open>data\<close> and the generator state.\<close>

definition day_loop ::
  "'g py_random \<Rightarrow> rounding \<Rightarrow> int \<Rightarrow> pydate \<Rightarrow> string \<Rightarrow> rat \<Rightarrow> string
     \<Rightarrow> sales_record list \<times> 'g \<Rightarrow> sales_record list \<times> 'g" where
  "day_loop R rnd wk week_start mkt mult acct =
     fold (\<lambda>day_offset (data, g).
            (let current_date = date_add week_start day_offset;
                 (rec, g') = make_record R rnd wk mkt mult acct current_date g
             in (data @ [rec], g')))
          [0..6]"

definition account_loop ::
  "'g py_random \<Rightarrow> rounding \<Rightarrow> int \<Rightarrow> pydate \<Rightarrow> string
     \<Rightarrow> sales_record list \<times> 'g \<Rightarrow> sales_record list \<times> 'g" where
  "account_loop R rnd wk week_start mkt =
     (let mult = market_multiplier rnd mkt
      in fold (\<lambda>acct. day_loop R rnd wk week_start mkt mult acct) ACCOUNTS)"

definition market_loop ::
  "'g py_random \<Rightarrow> rounding \<Rightarrow> int \<Rightarrow> sales_record list \<times> 'g \<Rightarrow> sales_record list \<times> 'g" where
  "market_loop R rnd wk =
     (let week_start = date_add base_date (timedelta_weeks (wk - 1))
      in fold (\<lambda>mkt. account_loop R rnd wk week_start mkt) MARKETS)"

definition week_loop :: "'g py_random \<Rightarrow> rounding \<Rightarrow> 'g \<Rightarrow> sales_record list \<times> 'g" where
  "week_loop R rnd g = fold (\<lambda>wk. market_loop R rnd wk) [1..8] ([], g)"

text \<open>\<open>_generate_sample_data\<close>: the cached list when there is one, else the generated
  list, stored in the cache.\<close>

definition generate_sample_data ::
  "'g py_random \<Rightarrow> rounding \<Rightarrow> 'g process \<Rightarrow> sales_record list \<times> 'g process" where
  "generate_sample_data R rnd p =
     (case DATA_CACHE p of
        Some cached \<Rightarrow> (cached, p)
      | None \<Rightarrow>
          (let (data, g) = week_loop R rnd (random_state p)
           in (data, p\<lparr>DATA_CACHE := Some data, random_state := g\<rparr>)))"

section \<open>The aggregator\<close>

text \<open>\<open>if week is not None: data = [d for d in data if d["week"] == week]\<close>, the first
  step of every operation.\<close>

definition filter_week :: "int option \<Rightarrow> sales_record list \<Rightarrow> sales_record list" where
  "filter_week wk data =
     (case wk of None \<Rightarrow> data | Some w \<Rightarrow> filter (\<lambda>d. week d = w) data)"

text \<open>\<open>if markets:\<close> is false for \<open>None\<close> and for the empty list.\<close>

definition filter_markets :: "string list option \<Rightarrow> sales_record list \<Rightarrow> sales_record list" where
  "filter_markets markets data =
     (case markets of
        None \<Rightarrow> data
      | Some ms \<Rightarrow> if ms = [] then data else filter (\<lambda>d. market d \<in> set ms) data)"

text \<open>\<open>get_sales_data\<close>: the week filter, then the market filter.\<close>

definition get_sales_data ::
  "'g py_random \<Rightarrow> rounding \<Rightarrow> 'g process \<Rightarrow> int option \<Rightarrow> string option
     \<Rightarrow> sales_record list \<times> 'g process" where
  "get_sales_data R rnd p wk mkt =
     (let (data, p') = generate_sample_data R rnd p;
          data = filter_week wk data;
          data = (case mkt of None \<Rightarrow> data | Some m \<Rightarrow> filter (\<lambda>d. market d = m) data)
      in (data, p'))"

text \<open>\<open>(sales / goal * 100) if goal > 0 else 0\<close>, the expression of both summaries.\<close>

definition percent_of_goal :: "rounding \<Rightarrow> int \<Rightarrow> int \<Rightarrow> py_error + pynum" where
  "percent_of_goal rnd s g =
     (if 0 < g then
        (case int_truediv rnd s g of
           Inl e \<Rightarrow> Inl e
         | Inr q \<Rightarrow> Inr (PyFloat (fmul rnd q (float_of_int rnd 100))))
      else Inr (PyInt 0))"

record summary =
  total_sales :: int
  total_goal :: int
  gap_to_goal :: int
  attainment :: pynum

definition get_summary_metrics ::
  "'g py_random \<Rightarrow> rounding \<Rightarrow> 'g process \<Rightarrow> int option \<Rightarrow> string list option
     \<Rightarrow> (py_error + summary) \<times> 'g process" where
  "get_summary_metrics R rnd p wk markets =
     (let (data, p') = generate_sample_data R rnd p;
          data = filter_week wk data;
          data = filter_markets markets data
      in if data = [] then
           (Inr \<lparr>total_sales = 0, total_goal = 0, gap_to_goal = 0, attainment = PyInt 0\<rparr>, p')
         else
           (let ts = sum_list (map sales_volume data);
                tg = sum_list (map goal data);
                gap = tg - ts
            in case percent_of_goal rnd ts tg of
                 Inl e \<Rightarrow> (Inl e, p')
               | Inr att \<Rightarrow>
                   (Inr \<lparr>total_sales = ts, total_goal = tg, gap_to_goal = gap,
                         attainment = py_round rnd att 1\<rparr>, p')))"

text \<open>\<open>get_territory_summary\<close>. The inner dictionary \<open>{"sales": .., "goal": ..}\<close> and
  the dictionaries of the result are records; their fields carry a suffix.\<close>

record totals =
  sales_t :: int
  goal_t :: int

record territory =
  market_r :: string
  sales_r :: int
  goal_r :: int
  attainment_r :: pynum

text \<open>The aggregation loop: a missing market is inserted with zero totals, then the two
  \<open>+=\<close> read and write the entry of the market.\<close>

fun market_totals_loop ::
  "sales_record list \<Rightarrow> (string, totals) pydict \<Rightarrow> py_error + (string, totals) pydict" where
  "market_totals_loop [] mt = Inr mt"
| "market_totals_loop (record # rest) mt =
     (let m = market record;
          mt = (if \<not> dict_contains m mt then dict_set m \<lparr>sales_t = 0, goal_t = 0\<rparr> mt else mt)
      in case dict_get mt m of
           Inl e \<Rightarrow> Inl e
         | Inr t \<Rightarrow>
             (let mt = dict_set m (t\<lparr>sales_t := sales_t t + sales_volume record\<rparr>) mt
              in case dict_get mt m of
                   Inl e \<Rightarrow> Inl e
                 | Inr t \<Rightarrow>
                     market_totals_loop rest
                       (dict_set m (t\<lparr>goal_t := goal_t t + goal record\<rparr>) mt)))"

text \<open>The loop over \<open>market_totals.items()\<close> that builds the result.\<close>

fun territory_rows :: "rounding \<Rightarrow> (string \<times> totals) list \<Rightarrow> py_error + territory list" where
  "territory_rows rnd [] = Inr []"
| "territory_rows rnd ((m, t) # rest) =
     (case percent_of_goal rnd (sales_t t) (goal_t t) of
        Inl e \<Rightarrow> Inl e
      | Inr att \<Rightarrow>
          (case territory_rows rnd rest of
             Inl e \<Rightarrow> Inl e
           | Inr rows \<Rightarrow>
               Inr (\<lparr>market_r = m, sales_r = sales_t t, goal_r = goal_t t,
                     attainment_r = py_round rnd att 1\<rparr> # rows)))"

text \<open>\<open>list.sort(key, reverse=True)\<close> reverses the list, sorts it stably and reverses
  the outcome, so that equal keys keep their order.\<close>

definition sort_reverse :: "('a \<Rightarrow> rat) \<Rightarrow> 'a list \<Rightarrow> 'a list" where
  "sort_reverse key xs = rev (sort_key key (rev xs))"

definition get_territory_summary ::
  "'g py_random \<Rightarrow> rounding \<Rightarrow> 'g process \<Rightarrow> int option
     \<Rightarrow> (py_error + territory list) \<times> 'g process" where
  "get_territory_summary R rnd p wk =
     (let (data, p') = generate_sample_data R rnd p;
          data = filter_week wk data
      in case market_totals_loop data [] of
           Inl e \<Rightarrow> (Inl e, p')
         | Inr mt \<Rightarrow>
             (case territory_rows rnd mt of
                Inl e \<Rightarrow> (Inl e, p')
              | Inr result \<Rightarrow>
                  (Inr (sort_reverse (\<lambda>x. num_value (attainment_r x)) result), p')))"

text \<open>\<open>get_daily_trend\<close>.\<close>

record trend =
  date_d :: string
  sales_d :: int

fun daily_totals_loop ::
  "sales_record list \<Rightarrow> (string, int) pydict \<Rightarrow> py_error + (string, int) pydict" where
  "daily_totals_loop [] dt = Inr dt"
| "daily_totals_loop (record # rest) dt =
     (let d = date record;
          dt = (if \<not> dict_contains d dt then dict_set d 0 dt else dt)
      in case dict_get dt d of
           Inl e \<Rightarrow> Inl e
         | Inr v \<Rightarrow> daily_totals_loop rest (dict_set d (v + sales_volume record) dt))"

definition get_daily_trend ::
  "'g py_random \<Rightarrow> rounding \<Rightarrow> 'g process \<Rightarrow> int option \<Rightarrow> string list option
     \<Rightarrow> (py_error + trend list) \<times> 'g process" where
  "get_daily_trend R rnd p wk markets =
     (let (data, p') = generate_sample_data R rnd p;
          data = filter_week wk data;
          data = filter_markets markets data
      in case daily_totals_loop data [] of
           Inl e \<Rightarrow> (Inl e, p')
         | Inr dt \<Rightarrow>
             (Inr (map (\<lambda>(d, total). \<lparr>date_d = d, sales_d = total\<rparr>) (sort dt)), p'))"

text \<open>\<open>get_available_weeks\<close>: \<open>sorted(set(...))\<close>.\<close>

definition get_available_weeks ::
  "'g py_random \<Rightarrow> rounding \<Rightarrow> 'g process \<Rightarrow> int list \<times> 'g process" where
  "get_available_weeks R rnd p =
     (let (data, p') = generate_sample_data R rnd p
      in (sorted_list_of_set (set (map week data)), p'))"

section \<open>A concrete runtime\<close>

text \<open>An instance of the two parameters, on which the definitions run: a linear
  congruential generator behind the four functions of \<open>random\<close>, and exact arithmetic
  as the rounding.\<close>

definition lcg_next :: "int \<Rightarrow> int" where
  "lcg_next s = (1103515245 * s + 12345) mod 2147483648"

definition lcg_draw :: "int \<Rightarrow> int" where
  "lcg_draw s = lcg_next s div 65536"

definition demo_random :: "int py_random" where
  "demo_random =
     \<lparr>randint = (\<lambda>a b s. (a + lcg_draw s mod (b - a + 1), lcg_next s)),
      gauss = (\<lambda>mu sigma s.
        (mu + sigma * (of_int (lcg_draw s mod 4001) / 1000 - 2), lcg_next s)),
      uniform = (\<lambda>a b s. (a + (b - a) * (of_int (lcg_draw s mod 1000) / 1000), lcg_next s)),
      choice = (\<lambda>xs s. (xs ! nat (lcg_draw s mod int (length xs)), lcg_next s))\<rparr>"

definition exact :: rounding where
  "exact x = x"

definition fresh :: "'g \<Rightarrow> 'g process" where
  "fresh g = \<lparr>DATA_CACHE = None, random_state = g\<rparr>"

text \<open>A process whose cache holds three records, to run the aggregator on.\<close>

definition example_process :: "int process" where
  "example_process = \<lparr>DATA_CACHE = Some
     [\<lparr>date = ''2026-01-02'', week = 1, market = ''Dallas'', account = ''Kroger'',
       brand = ''Hennessy'', rep = ''Garcia, M'', goal = 1000, sales_volume = 900,
       displays = 0, pods = 0, voids = 0\<rparr>,
      \<lparr>date = ''2026-01-01'', week = 1, market = ''Austin'', account = ''Kroger'',
       brand = ''Hennessy'', rep = ''Garcia, M'', goal = 900, sales_volume = 1000,
       displays = 1, pods = 0, voids = 0\<rparr>,
      \<lparr>date = ''2026-01-02'', week = 2, market = ''Austin'', account = ''Kroger'',
       brand = ''Belvedere'', rep = ''Garcia, M'', goal = 1100, sales_volume = 1000,
       displays = 1, pods = 0, voids = 0\<rparr>], random_state = 7\<rparr>"

section \<open>Vocabulary of the properties\<close>

text \<open>The combination a record stands for, the date string of the day \<open>n\<close> days after the
  base date, and the list of all combinations: week, market, account and day of the week.\<close>

definition record_key :: "sales_record \<Rightarrow> int \<times> string \<times> string \<times> string" where
  "record_key r = (week r, market r, account r, date r)"

definition date_string :: "int \<Rightarrow> string" where
  "date_string n = strftime_ymd (date_add base_date n)"

definition combination_key ::
  "int \<times> string \<times> string \<times> int \<Rightarrow> int \<times> string \<times> string \<times> string" where
  "combination_key c = (case c of (w, m, a, d) \<Rightarrow> (w, m, a, date_string (7 * (w - 1) + d)))"

definition combinations :: "(int \<times> string \<times> string \<times> int) list" where
  "combinations = List.product [1..8] (List.product MARKETS (List.product ACCOUNTS [0..6]))"

text \<open>The bounds that every generated record meets.\<close>

definition record_ok :: "sales_record \<Rightarrow> bool" where
  "record_ok r \<longleftrightarrow> 400 \<le> goal r \<and> 200 \<le> sales_volume r"

text \<open>The sales and the goal of a market in a list of records.\<close>

definition market_sales :: "sales_record list \<Rightarrow> string \<Rightarrow> int" where
  "market_sales data m = sum_list (map sales_volume (filter (\<lambda>d. market d = m) data))"

definition market_goal :: "sales_record list \<Rightarrow> string \<Rightarrow> int" where
  "market_goal data m = sum_list (map goal (filter (\<lambda>d. market d = m) data))"

text \<open>The filtered subset of \<open>get_summary_metrics\<close> and \<open>get_daily_trend\<close>.\<close>

definition filtered ::
  "'g py_random \<Rightarrow> rounding \<Rightarrow> 'g process \<Rightarrow> int option \<Rightarrow> string list option
     \<Rightarrow> sales_record list" where
  "filtered R rnd p wk markets =
     filter_markets markets (filter_week wk (fst (generate_sample_data R rnd p)))"

section \<open>Running the model\<close>

lemma round_examples:
  "py_round exact (PyFloat (200 / 3)) 1 = PyFloat (667 / 10)"
  "py_round exact (PyFloat (1 / 4)) 1 = PyFloat (1 / 5)"
  "py_round exact (PyFloat (7 / 20)) 1 = PyFloat (2 / 5)"
  "py_round exact (PyInt 0) 1 = PyInt 0"
  "py_int (7 / 2) = 3" "py_int (- 7 / 2) = - 3"
  by code_simp+

lemma date_examples:
  "date_string 0 = ''2026-01-01''" "date_string 31 = ''2026-02-01''"
  "date_string 55 = ''2026-02-25''"
  "strftime_ymd (date_add (2024, 2, 28) 2) = ''2024-03-01''"
  "strftime_ymd (date_add (2026, 1, 1) (- 1)) = ''2025-12-31''"
  unfolding date_string_def by code_simp+

lemma summary_example:
  "fst (get_summary_metrics demo_random exact example_process None None) =
     Inr \<lparr>total_sales = 2900, total_goal = 3000, gap_to_goal = 100,
          attainment = PyFloat (967 / 10)\<rparr>"
  "fst (get_summary_metrics demo_random exact example_process (Some 1) (Some [''Austin''])) =
     Inr \<lparr>total_sales = 1000, total_goal = 900, gap_to_goal = - 100,
          attainment = PyFloat (1111 / 10)\<rparr>"
  by code_simp+

lemma territory_example:
  "fst (get_territory_summary demo_random exact example_process None) =
     Inr [\<lparr>market_r = ''Austin'', sales_r = 2000, goal_r = 2000, attainment_r = PyFloat 100\<rparr>,
          \<lparr>market_r = ''Dallas'', sales_r = 900, goal_r = 1000, attainment_r = PyFloat 90\<rparr>]"
  by code_simp

lemma trend_example:
  "fst (get_daily_trend demo_random exact example_process None None) =
     Inr [\<lparr>date_d = ''2026-01-01'', sales_d = 1000\<rparr>,
          \<lparr>date_d = ''2026-01-02'', sales_d = 1900\<rparr>]"
  by code_simp

section \<open>The generator: one record per combination\<close>

lemma make_record_key:
  "record_key (fst (make_record R rnd wk mkt mult acct cd g)) = (wk, mkt, acct, strftime_ymd cd)"
  by (simp add: make_record_def record_key_def Let_def case_prod_beta)

lemma fold_keys:
  assumes "\<And>x st. map key (fst (body x st)) = map key (fst st) @ ks x"
  shows "map key (fst (fold body xs st)) = map key (fst st) @ concat (map ks xs)"
  by (induction xs arbitrary: st) (simp_all add: assms)

lemma day_loop_keys:
  "map record_key (fst (day_loop R rnd wk ws mkt mult acct st)) =
     map record_key (fst st) @ map (\<lambda>d. (wk, mkt, acct, strftime_ymd (date_add ws d))) [0..6]"
proof -
  have "map record_key (fst (day_loop R rnd wk ws mkt mult acct st)) =
     map record_key (fst st) @ concat (map (\<lambda>d. [(wk, mkt, acct, strftime_ymd (date_add ws d))]) [0..6])"
    unfolding day_loop_def
    by (rule fold_keys) (simp add: case_prod_beta Let_def make_record_key)
  then show ?thesis by (simp add: concat_map_singleton)
qed

lemma account_loop_keys:
  "map record_key (fst (account_loop R rnd wk ws mkt st)) =
     map record_key (fst st) @
     concat (map (\<lambda>a. map (\<lambda>d. (wk, mkt, a, strftime_ymd (date_add ws d))) [0..6]) ACCOUNTS)"
  unfolding account_loop_def Let_def
  by (rule fold_keys) (rule day_loop_keys)

lemma market_loop_keys:
  "map record_key (fst (market_loop R rnd wk st)) =
     map record_key (fst st) @
     concat (map (\<lambda>m. concat (map (\<lambda>a. map (\<lambda>d.
        (wk, m, a, strftime_ymd (date_add (date_add base_date (timedelta_weeks (wk - 1))) d)))
          [0..6]) ACCOUNTS)) MARKETS)"
  unfolding market_loop_def Let_def
  by (rule fold_keys) (rule account_loop_keys)

lemma week_loop_keys_nested:
  "map record_key (fst (week_loop R rnd g)) =
     concat (map (\<lambda>w. concat (map (\<lambda>m. concat (map (\<lambda>a. map (\<lambda>d.
        (w, m, a, strftime_ymd (date_add (date_add base_date (timedelta_weeks (w - 1))) d)))
          [0..6]) ACCOUNTS)) MARKETS)) [1..8])"
proof -
  have "map record_key (fst (week_loop R rnd g)) = map record_key (fst ([], g)) @
     concat (map (\<lambda>w. concat (map (\<lambda>m. concat (map (\<lambda>a. map (\<lambda>d.
        (w, m, a, strftime_ymd (date_add (date_add base_date (timedelta_weeks (w - 1))) d)))
          [0..6]) ACCOUNTS)) MARKETS)) [1..8])"
    unfolding week_loop_def
    by (rule fold_keys) (rule market_loop_keys)
  then show ?thesis by simp
qed

lemma date_add_add:
  "0 \<le> a \<Longrightarrow> 0 \<le> b \<Longrightarrow> date_add (date_add dt a) b = date_add dt (a + b)"
proof -
  assume a: "0 \<le> a" and b: "0 \<le> b"
  have "nat (a + b) = nat b + nat a" using a b by simp
  then have "(next_day ^^ nat (a + b)) dt = (next_day ^^ nat b) ((next_day ^^ nat a) dt)"
    by (simp add: funpow_add)
  then show ?thesis using a b by (simp add: date_add_def)
qed

lemma product_as_concat:
  "map f (List.product xs ys) = concat (map (\<lambda>x. map (\<lambda>y. f (x, y)) ys) xs)"
  by (induction xs) simp_all

lemma concat_map_cong_set:
  "(\<And>x. x \<in> set xs \<Longrightarrow> f x = g x) \<Longrightarrow> concat (map f xs) = concat (map g xs)"
  by (induction xs) simp_all

lemma week_loop_keys:
  "map record_key (fst (week_loop R rnd g)) = map combination_key combinations"
proof -
  have inner: "\<And>w m a. w \<in> set [1..8] \<Longrightarrow>
     map (\<lambda>d. (w, m, a, strftime_ymd (date_add (date_add base_date (timedelta_weeks (w - 1))) d))) [0..6]
     = map (\<lambda>d. combination_key (w, m, a, d)) [0..6]"
    by (rule map_cong[OF refl])
       (simp add: combination_key_def date_string_def timedelta_weeks_def date_add_add)
  have "map combination_key combinations =
     concat (map (\<lambda>w. concat (map (\<lambda>m. concat (map (\<lambda>a. map (\<lambda>d.
        combination_key (w, m, a, d)) [0..6]) ACCOUNTS)) MARKETS)) [1..8])"
    unfolding combinations_def
    by (simp only: product_as_concat map_concat map_map comp_def)
  also have "\<dots> = map record_key (fst (week_loop R rnd g))"
    unfolding week_loop_keys_nested
    by (rule concat_map_cong_set) (simp only: inner)
  finally show ?thesis by simp
qed

lemma date_strings_distinct: "distinct (map date_string [0..55])"
  unfolding date_string_def by code_simp

lemma date_string_inj:
  assumes "0 \<le> i" "i \<le> 55" "0 \<le> j" "j \<le> 55" "date_string i = date_string j"
  shows "i = j"
proof -
  have "inj_on date_string (set [0..55])"
    using date_strings_distinct by (simp add: distinct_map)
  then show ?thesis using assms by (auto dest: inj_onD)
qed

lemma MARKETS_distinct: "distinct MARKETS \<and> length MARKETS = 5"
  by (simp add: MARKETS_def)

lemma ACCOUNTS_distinct: "distinct ACCOUNTS \<and> length ACCOUNTS = 5"
  by (simp add: ACCOUNTS_def)

lemma combinations_distinct: "distinct combinations"
  unfolding combinations_def
  by (intro distinct_product) (simp_all add: MARKETS_distinct ACCOUNTS_distinct)

lemma combinations_length: "length combinations = 1400"
  unfolding combinations_def
  by (simp add: MARKETS_distinct ACCOUNTS_distinct)

lemma combinations_set:
  "(w, m, a, d) \<in> set combinations \<longleftrightarrow>
     1 \<le> w \<and> w \<le> 8 \<and> m \<in> set MARKETS \<and> a \<in> set ACCOUNTS \<and> 0 \<le> d \<and> d \<le> 6"
  unfolding combinations_def by auto

lemma combination_key_inj: "inj_on combination_key (set combinations)"
proof (rule inj_onI)
  fix x y
  assume x: "x \<in> set combinations" and y: "y \<in> set combinations"
    and eq: "combination_key x = combination_key y"
  obtain w m a d where xd: "x = (w, m, a, d)" by (cases x) auto
  obtain w' m' a' d' where yd: "y = (w', m', a', d')" by (cases y) auto
  from eq xd yd have same: "w = w'" "m = m'" "a = a'"
    by (simp_all add: combination_key_def)
  from eq have "snd (snd (snd (combination_key x))) = snd (snd (snd (combination_key y)))"
    by simp
  then have ds: "date_string (7 * (w - 1) + d) = date_string (7 * (w' - 1) + d')"
    unfolding xd yd combination_key_def by simp
  from x xd have bx: "1 \<le> w" "w \<le> 8" "0 \<le> d" "d \<le> 6" by (simp_all add: combinations_set)
  from y yd have by': "1 \<le> w'" "w' \<le> 8" "0 \<le> d'" "d' \<le> 6" by (simp_all add: combinations_set)
  have "7 * (w - 1) + d = 7 * (w' - 1) + d'"
    using bx by' ds by (intro date_string_inj) auto
  with same show "x = y" by (simp add: xd yd)
qed

lemma keys_distinct: "distinct (map combination_key combinations)"
  by (simp add: distinct_map combinations_distinct combination_key_inj)

lemma count_one:
  "distinct (map f xs) \<Longrightarrow> y \<in> set (map f xs) \<Longrightarrow> length (filter (\<lambda>x. f x = y) xs) = 1"
proof (induction xs)
  case Nil
  then show ?case by simp
next
  case (Cons x xs)
  show ?case
  proof (cases "f x = y")
    case True
    from Cons.prems have "f x \<notin> f ` set xs" by simp
    with True have "\<forall>z\<in>set xs. f z \<noteq> y" by (metis imageI)
    then have "filter (\<lambda>x. f x = y) xs = []"
      by (simp add: filter_empty_conv)
    with True show ?thesis by simp
  next
    case False
    with Cons show ?thesis by auto
  qed
qed

lemma week_loop_length: "length (fst (week_loop R rnd g)) = 1400"
proof -
  have "length (map record_key (fst (week_loop R rnd g))) = 1400"
    by (simp only: week_loop_keys length_map combinations_length)
  then show ?thesis by simp
qed

lemma week_loop_count:
  assumes "1 \<le> w" "w \<le> 8" "m \<in> set MARKETS" "a \<in> set ACCOUNTS" "0 \<le> d" "d \<le> 6"
  shows "length (filter (\<lambda>r. record_key r = combination_key (w, m, a, d)) (fst (week_loop R rnd g))) = 1"
proof (rule count_one)
  show "distinct (map record_key (fst (week_loop R rnd g)))"
    by (simp only: week_loop_keys keys_distinct)
  have "(w, m, a, d) \<in> set combinations" using assms by (simp add: combinations_set)
  then show "combination_key (w, m, a, d) \<in> set (map record_key (fst (week_loop R rnd g)))"
    by (simp only: week_loop_keys) simp
qed

lemma week_loop_member:
  assumes "r \<in> set (fst (week_loop R rnd g))"
  shows "\<exists>c \<in> set combinations. record_key r = combination_key c"
proof -
  from assms have "record_key r \<in> set (map record_key (fst (week_loop R rnd g)))" by simp
  then show ?thesis by (simp only: week_loop_keys) auto
qed

section \<open>The cache\<close>

lemma generate_fresh:
  "generate_sample_data R rnd (fresh g) =
     (fst (week_loop R rnd g),
      \<lparr>DATA_CACHE = Some (fst (week_loop R rnd g)), random_state = snd (week_loop R rnd g)\<rparr>)"
  by (simp add: generate_sample_data_def fresh_def split: prod.splits)

lemma generate_cached:
  "DATA_CACHE p = Some d \<Longrightarrow> generate_sample_data R rnd p = (d, p)"
  by (simp add: generate_sample_data_def)

lemma generate_fills_cache:
  "DATA_CACHE (snd (generate_sample_data R rnd p)) = Some (fst (generate_sample_data R rnd p))"
  by (cases "DATA_CACHE p") (simp_all add: generate_sample_data_def split: prod.splits)

text \<open>
  Claim C3. \<open>_generate_sample_data\<close> is idempotent within a process. On a process whose
  cache is empty the call runs the generation loops and stores their list in the cache;
  a call made after any call returns the same list and leaves the process state (cache and
  generator state) as it is, so nothing is drawn again and the sum of \<open>sales_volume\<close> is
  the same.
\<close>

theorem generate_idempotent:
  "generate_sample_data R rnd (fresh g) =
     (fst (week_loop R rnd g),
      \<lparr>DATA_CACHE = Some (fst (week_loop R rnd g)), random_state = snd (week_loop R rnd g)\<rparr>)
   \<and> generate_sample_data R rnd (snd (generate_sample_data R rnd p)) =
     (fst (generate_sample_data R rnd p), snd (generate_sample_data R rnd p))
   \<and> sum_list (map sales_volume
        (fst (generate_sample_data R rnd (snd (generate_sample_data R rnd p))))) =
     sum_list (map sales_volume (fst (generate_sample_data R rnd p)))"
proof -
  have again: "generate_sample_data R rnd (snd (generate_sample_data R rnd p)) =
     (fst (generate_sample_data R rnd p), snd (generate_sample_data R rnd p))"
    by (rule generate_cached) (rule generate_fills_cache)
  from generate_fresh again show ?thesis by simp
qed

section \<open>The generated dataset\<close>

lemma record_key_eq:
  "record_key r = combination_key (w, m, a, d) \<longleftrightarrow>
     week r = w \<and> market r = m \<and> account r = a \<and> date r = date_string (7 * (w - 1) + d)"
  by (simp add: record_key_def combination_key_def)

text \<open>
  Claim C1. The first call of \<open>_generate_sample_data\<close> returns exactly 1400 records:
  for every week 1..8, each of the 5 markets, each of the 5 accounts and every day offset
  0..6 of the week there is exactly one record with that week, market, account and the date
  of that day, and every record is the record of such a combination. The five market names
  are distinct, the five account names are distinct and the 56 date strings are distinct.
  This holds for every seeded generator state and every behaviour of \<open>random\<close>.
\<close>

theorem generate_one_record_per_combination:
  "length (fst (generate_sample_data R rnd (fresh g))) = 1400
   \<and> (\<forall>w\<in>{1..8}. \<forall>m\<in>set MARKETS. \<forall>a\<in>set ACCOUNTS. \<forall>d\<in>{0..6}.
         length (filter (\<lambda>r. week r = w \<and> market r = m \<and> account r = a
                              \<and> date r = date_string (7 * (w - 1) + d))
                   (fst (generate_sample_data R rnd (fresh g)))) = 1)
   \<and> (\<forall>r\<in>set (fst (generate_sample_data R rnd (fresh g))).
         week r \<in> {1..8} \<and> market r \<in> set MARKETS \<and> account r \<in> set ACCOUNTS
         \<and> (\<exists>d\<in>{0..6}. date r = date_string (7 * (week r - 1) + d)))
   \<and> distinct MARKETS \<and> length MARKETS = 5 \<and> distinct ACCOUNTS \<and> length ACCOUNTS = 5
   \<and> distinct (map date_string [0..55])"
proof -
  have data: "fst (generate_sample_data R rnd (fresh g)) = fst (week_loop R rnd g)"
    by (simp add: generate_fresh)
  have count: "\<forall>w\<in>{1..8}. \<forall>m\<in>set MARKETS. \<forall>a\<in>set ACCOUNTS. \<forall>d\<in>{0..6}.
         length (filter (\<lambda>r. week r = w \<and> market r = m \<and> account r = a
                              \<and> date r = date_string (7 * (w - 1) + d))
                   (fst (week_loop R rnd g))) = 1"
  proof (intro ballI)
    fix w d :: int and m a :: string
    assume "w \<in> {1..8}" "m \<in> set MARKETS" "a \<in> set ACCOUNTS" "d \<in> {0..6}"
    then have "length (filter (\<lambda>r. record_key r = combination_key (w, m, a, d))
                 (fst (week_loop R rnd g))) = 1"
      by (intro week_loop_count) simp_all
    then show "length (filter (\<lambda>r. week r = w \<and> market r = m \<and> account r = a
                              \<and> date r = date_string (7 * (w - 1) + d))
                   (fst (week_loop R rnd g))) = 1"
      by (simp only: record_key_eq)
  qed
  have member: "\<forall>r\<in>set (fst (week_loop R rnd g)).
         week r \<in> {1..8} \<and> market r \<in> set MARKETS \<and> account r \<in> set ACCOUNTS
         \<and> (\<exists>d\<in>{0..6}. date r = date_string (7 * (week r - 1) + d))"
  proof
    fix r assume "r \<in> set (fst (week_loop R rnd g))"
    then have "\<exists>c\<in>set combinations. record_key r = combination_key c"
      by (rule week_loop_member)
    then obtain c where c: "c \<in> set combinations" "record_key r = combination_key c"
      by (elim bexE)
    obtain w m a d where cd: "c = (w, m, a, d)" by (cases c) auto
    from c cd have k: "week r = w" "market r = m" "account r = a"
        "date r = date_string (7 * (w - 1) + d)"
      by (simp_all add: record_key_eq)
    from c(1) cd have "1 \<le> w" "w \<le> 8" "m \<in> set MARKETS" "a \<in> set ACCOUNTS" "0 \<le> d" "d \<le> 6"
      by (simp_all add: combinations_set)
    with k show "week r \<in> {1..8} \<and> market r \<in> set MARKETS \<and> account r \<in> set ACCOUNTS
         \<and> (\<exists>d\<in>{0..6}. date r = date_string (7 * (week r - 1) + d))"
      by auto
  qed
  show ?thesis
    unfolding data
    by (intro conjI week_loop_length count member date_strings_distinct
          MARKETS_distinct[THEN conjunct1] MARKETS_distinct[THEN conjunct2]
          ACCOUNTS_distinct[THEN conjunct1] ACCOUNTS_distinct[THEN conjunct2])
qed

lemma date_string_18: "date_string 18 = ''2026-01-19''"
  unfolding date_string_def by code_simp

theorem generate_one_record_per_combination_witness:
  "length (fst (generate_sample_data demo_random exact (fresh 42))) = 1400
   \<and> length (filter (\<lambda>r. week r = 3 \<and> market r = ''Houston'' \<and> account r = ''Kroger''
                        \<and> date r = ''2026-01-19'')
        (fst (generate_sample_data demo_random exact (fresh 42)))) = 1"
proof -
  note all = generate_one_record_per_combination [of demo_random exact 42]
  have w: "(3::int) \<in> {1..8}" and d: "(4::int) \<in> {0..6}" by simp_all
  have m: "''Houston'' \<in> set MARKETS" by (simp add: MARKETS_def)
  have a: "''Kroger'' \<in> set ACCOUNTS" by (simp add: ACCOUNTS_def)
  have "length (filter (\<lambda>r. week r = 3 \<and> market r = ''Houston'' \<and> account r = ''Kroger''
                        \<and> date r = date_string (7 * (3 - 1) + 4))
        (fst (generate_sample_data demo_random exact (fresh 42)))) = 1"
    by (rule all [THEN conjunct2, THEN conjunct1, THEN bspec, OF w, THEN bspec, OF m,
          THEN bspec, OF a, THEN bspec, OF d])
  then have "length (filter (\<lambda>r. week r = 3 \<and> market r = ''Houston'' \<and> account r = ''Kroger''
                        \<and> date r = ''2026-01-19'')
        (fst (generate_sample_data demo_random exact (fresh 42)))) = 1"
    by (simp add: date_string_18)
  with all [THEN conjunct1] show ?thesis by (intro conjI)
qed

section \<open>Filtering\<close>

text \<open>
  Claim C6. \<open>get_sales_data\<close> returns the records of the dataset that match the week
  and the market when both are given, the records that match the one filter given, and the
  whole dataset when none is given. Each result is a \<open>filter\<close> of the dataset, so the
  records keep their relative order.
\<close>

theorem get_sales_data_filters:
  "fst (get_sales_data R rnd p (Some w) (Some m)) =
     filter (\<lambda>d. week d = w \<and> market d = m) (fst (generate_sample_data R rnd p))
   \<and> fst (get_sales_data R rnd p (Some w) None) =
     filter (\<lambda>d. week d = w) (fst (generate_sample_data R rnd p))
   \<and> fst (get_sales_data R rnd p None (Some m)) =
     filter (\<lambda>d. market d = m) (fst (generate_sample_data R rnd p))
   \<and> fst (get_sales_data R rnd p None None) = fst (generate_sample_data R rnd p)"
  by (simp add: get_sales_data_def filter_week_def split: prod.splits)

text \<open>
  Claim C8. An empty list of markets is no filter: for every week filter,
  \<open>get_summary_metrics\<close> and \<open>get_daily_trend\<close> return with \<open>markets = []\<close> what
  they return with \<open>markets = None\<close>.
\<close>

theorem empty_markets_is_no_filter:
  "get_summary_metrics R rnd p wk (Some []) = get_summary_metrics R rnd p wk None
   \<and> get_daily_trend R rnd p wk (Some []) = get_daily_trend R rnd p wk None"
  by (simp add: get_summary_metrics_def get_daily_trend_def filter_markets_def)

section \<open>Bounds on the generated values\<close>

lemma rnd_mono: "float_rounding rnd \<Longrightarrow> x \<le> y \<Longrightarrow> rnd x \<le> rnd y"
  by (simp add: float_rounding_def mono_def)

lemma rnd_half_int:
  assumes "float_rounding rnd" "\<bar>k\<bar> \<le> 2 ^ 53"
  shows "rnd (of_int k / 2) = of_int k / 2"
  using assms by (simp add: float_rounding_def)

lemma rnd_fixed:
  assumes "float_rounding rnd"
  shows "rnd 0 = 0" "rnd (1 / 2) = 1 / 2" "rnd 1 = 1" "rnd 200 = 200" "rnd 400 = 400"
    "rnd 800 = 800"
  using rnd_half_int [OF assms, of 0] rnd_half_int [OF assms, of 1]
    rnd_half_int [OF assms, of 2] rnd_half_int [OF assms, of 400]
    rnd_half_int [OF assms, of 800] rnd_half_int [OF assms, of 1600]
  by simp_all

lemma rnd_lower:
  assumes fr: "float_rounding rnd"
  shows "0 \<le> x \<Longrightarrow> 0 \<le> rnd x" "1 / 2 \<le> x \<Longrightarrow> 1 / 2 \<le> rnd x" "1 \<le> x \<Longrightarrow> 1 \<le> rnd x"
    "200 \<le> x \<Longrightarrow> 200 \<le> rnd x" "400 \<le> x \<Longrightarrow> 400 \<le> rnd x" "800 \<le> x \<Longrightarrow> 800 \<le> rnd x"
  using rnd_mono [OF fr, of 0 x] rnd_mono [OF fr, of "1 / 2" x] rnd_mono [OF fr, of 1 x]
    rnd_mono [OF fr, of 200 x] rnd_mono [OF fr, of 400 x] rnd_mono [OF fr, of 800 x]
  by (simp_all only: rnd_fixed [OF fr])

lemma py_int_lower: "of_int n \<le> x \<Longrightarrow> 0 \<le> n \<Longrightarrow> n \<le> py_int x"
  by (simp add: py_int_def le_floor_iff)

lemma market_multiplier_cases:
  "market_multiplier rnd m = rnd (12 / 10) \<or> market_multiplier rnd m = rnd (11 / 10)
   \<or> market_multiplier rnd m = rnd (95 / 100) \<or> market_multiplier rnd m = rnd (85 / 100)
   \<or> market_multiplier rnd m = rnd (9 / 10) \<or> market_multiplier rnd m = rnd 1"
  unfolding market_multiplier_def py_float_def map_of.simps fst_conv snd_conv
  by (simp only: option.case if_split_eq1 simp_thms fun_upd_apply split: if_splits)

lemma market_multiplier_lower:
  assumes "float_rounding rnd"
  shows "1 / 2 \<le> market_multiplier rnd m"
proof -
  have low: "\<And>q. 1 / 2 \<le> q \<Longrightarrow> 1 / 2 \<le> rnd q"
    by (rule rnd_lower(2) [OF assms])
  have "1 / 2 \<le> rnd (12 / 10)" "1 / 2 \<le> rnd (11 / 10)" "1 / 2 \<le> rnd (95 / 100)"
    "1 / 2 \<le> rnd (85 / 100)" "1 / 2 \<le> rnd (9 / 10)" "1 / 2 \<le> rnd 1"
    by (rule low, simp)+
  with market_multiplier_cases [of rnd m] show ?thesis
    by (elim disjE) (simp_all only:)
qed

lemma randint_range:
  "random_ok R \<Longrightarrow> a \<le> b \<Longrightarrow> a \<le> fst (randint R a b g) \<and> fst (randint R a b g) \<le> b"
  by (simp add: random_ok_def)

lemma uniform_range:
  "random_ok R \<Longrightarrow> a \<le> b \<Longrightarrow> a \<le> fst (uniform R a b g)"
  by (simp add: random_ok_def)

text \<open>The goal: the truncated product of a draw of at least 800 and the multiplier.\<close>

lemma base_goal_lower:
  assumes fr: "float_rounding rnd" and r: "800 \<le> r" and mult: "1 / 2 \<le> mult"
  shows "400 \<le> py_int (fmul rnd (float_of_int rnd r) mult)"
proof -
  have "800 \<le> float_of_int rnd r"
    unfolding float_of_int_def using r by (intro rnd_lower(6) [OF fr]) simp_all
  then have "400 \<le> float_of_int rnd r * mult"
    using mult mult_mono [of 800 "float_of_int rnd r" "1 / 2" mult] by simp
  then have "400 \<le> fmul rnd (float_of_int rnd r) mult"
    unfolding fmul_def using fr by (intro rnd_lower(5) [OF fr]) simp_all
  then show ?thesis by (intro py_int_lower) simp_all
qed

lemma sales_lower:
  assumes fr: "float_rounding rnd" and g: "400 \<le> base_goal"
  shows "200 \<le> py_int (fmul rnd (float_of_int rnd base_goal)
            (max (py_float rnd (1 / 2)) (min (py_float rnd (3 / 2)) att)))"
proof -
  let ?c = "max (py_float rnd (1 / 2)) (min (py_float rnd (3 / 2)) att)"
  have c: "1 / 2 \<le> ?c" using rnd_fixed(2) [OF fr] by (simp add: py_float_def)
  have "400 \<le> float_of_int rnd base_goal"
    unfolding float_of_int_def using g by (intro rnd_lower(5) [OF fr]) simp_all
  then have "200 \<le> float_of_int rnd base_goal * ?c"
    using c mult_mono [of 400 "float_of_int rnd base_goal" "1 / 2" ?c] by simp
  then have "200 \<le> fmul rnd (float_of_int rnd base_goal) ?c"
    unfolding fmul_def using fr by (intro rnd_lower(4) [OF fr]) simp_all
  then show ?thesis by (intro py_int_lower) simp_all
qed

lemma uniform_nonneg:
  assumes fr: "float_rounding rnd" and ok: "random_ok R" and a: "0 \<le> a" and b: "a \<le> b"
  shows "0 \<le> fst (uniform R (py_float rnd a) (py_float rnd b) g)"
proof -
  have "py_float rnd a \<le> py_float rnd b"
    unfolding py_float_def by (rule rnd_mono [OF fr b])
  then have "py_float rnd a \<le> fst (uniform R (py_float rnd a) (py_float rnd b) g)"
    by (simp add: uniform_range [OF ok])
  moreover have "0 \<le> py_float rnd a"
    unfolding py_float_def by (rule rnd_lower(1) [OF fr a])
  ultimately show ?thesis by simp
qed

lemma display_lift_lower:
  assumes fr: "float_rounding rnd" and d: "0 < n" and u: "0 \<le> u"
  shows "1 \<le> fadd rnd (float_of_int rnd 1) (fmul rnd (float_of_int rnd n) u)"
proof -
  have n: "0 \<le> float_of_int rnd n"
    unfolding float_of_int_def using d by (intro rnd_lower(1) [OF fr]) simp_all
  have "0 \<le> fmul rnd (float_of_int rnd n) u"
    unfolding fmul_def using n u by (intro rnd_lower(1) [OF fr]) simp_all
  moreover have "float_of_int rnd 1 = 1" by (simp add: float_of_int_def rnd_fixed(3) [OF fr])
  ultimately have "1 \<le> float_of_int rnd 1 + fmul rnd (float_of_int rnd n) u" by simp
  then show ?thesis
    unfolding fadd_def by (rule rnd_lower(3) [OF fr])
qed

lemma lifted_sales_lower:
  assumes fr: "float_rounding rnd" and s: "200 \<le> sales" and l: "1 \<le> lift"
  shows "200 \<le> py_int (fmul rnd (float_of_int rnd sales) lift)"
proof -
  have "200 \<le> float_of_int rnd sales"
    unfolding float_of_int_def using s by (intro rnd_lower(4) [OF fr]) simp_all
  then have "200 \<le> float_of_int rnd sales * lift"
    using l mult_mono [of 200 "float_of_int rnd sales" 1 lift] by simp
  then have "200 \<le> fmul rnd (float_of_int rnd sales) lift"
    unfolding fmul_def using fr by (intro rnd_lower(4) [OF fr]) simp_all
  then show ?thesis by (intro py_int_lower) simp_all
qed

lemma make_record_lower:
  assumes fr: "float_rounding rnd" and ok: "random_ok R" and mult: "1 / 2 \<le> mult"
  shows "400 \<le> goal (fst (make_record R rnd wk mkt mult acct cd g))
       \<and> 200 \<le> sales_volume (fst (make_record R rnd wk mkt mult acct cd g))"
proof -
  have r: "800 \<le> fst (randint R 800 1500 g)" using randint_range [OF ok, of 800 1500 g] by simp
  note g = base_goal_lower [OF fr r mult]
  note s = sales_lower [OF fr g]
  have lifted: "\<And>n u att. 0 < n \<Longrightarrow> 0 \<le> u \<Longrightarrow>
      200 \<le> py_int (fmul rnd (float_of_int rnd (py_int (fmul rnd (float_of_int rnd
        (py_int (fmul rnd (float_of_int rnd (fst (randint R 800 1500 g))) mult)))
        (max (py_float rnd (1 / 2)) (min (py_float rnd (3 / 2)) att)))))
        (fadd rnd (float_of_int rnd 1) (fmul rnd (float_of_int rnd n) u)))"
    by (rule lifted_sales_lower [OF fr s display_lift_lower [OF fr]])
  show ?thesis
    using g s
    by (simp add: make_record_def Let_def case_prod_beta lifted uniform_nonneg [OF fr ok])
qed

lemma fold_all:
  assumes "\<And>x st. list_all P (fst st) \<Longrightarrow> list_all P (fst (body x st))"
  shows "list_all P (fst st) \<Longrightarrow> list_all P (fst (fold body xs st))"
  by (induction xs arbitrary: st) (simp_all add: assms)

lemma day_loop_ok:
  assumes fr: "float_rounding rnd" and ok: "random_ok R" and mult: "1 / 2 \<le> mult"
  shows "list_all record_ok (fst st) \<Longrightarrow>
         list_all record_ok (fst (day_loop R rnd wk ws mkt mult acct st))"
  unfolding day_loop_def
  by (rule fold_all)
     (simp add: case_prod_beta Let_def record_ok_def make_record_lower [OF fr ok mult])

lemma account_loop_ok:
  assumes fr: "float_rounding rnd" and ok: "random_ok R"
  shows "list_all record_ok (fst st) \<Longrightarrow>
         list_all record_ok (fst (account_loop R rnd wk ws mkt st))"
  unfolding account_loop_def Let_def
  by (rule fold_all) (rule day_loop_ok [OF fr ok market_multiplier_lower [OF fr]])

lemma market_loop_ok:
  assumes fr: "float_rounding rnd" and ok: "random_ok R"
  shows "list_all record_ok (fst st) \<Longrightarrow> list_all record_ok (fst (market_loop R rnd wk st))"
  unfolding market_loop_def Let_def
  by (rule fold_all) (rule account_loop_ok [OF fr ok])

lemma week_loop_ok:
  assumes fr: "float_rounding rnd" and ok: "random_ok R"
  shows "list_all record_ok (fst (week_loop R rnd g))"
  unfolding week_loop_def
  by (rule fold_all [OF market_loop_ok [OF fr ok]]) simp_all

lemma generate_fresh':
  "fst (generate_sample_data R rnd (fresh g)) = fst (week_loop R rnd g)"
  by (simp add: generate_fresh)

text \<open>
  Claim C9. Every record of the generated dataset has a strictly positive integer goal and
  a strictly positive integer sales volume, for every random source that keeps the
  documented ranges and every rounding that is monotone and exact on half integers: the
  draw is at least 800, every multiplier at least one half, the clamped attainment at
  least one half and the display lift at least one.
\<close>

theorem generated_goal_and_sales_positive:
  assumes "random_ok R" and "float_rounding rnd"
  shows "list_all (\<lambda>r. 0 < goal r \<and> 0 < sales_volume r)
           (fst (generate_sample_data R rnd (fresh g)))"
proof -
  have "list_all record_ok (fst (week_loop R rnd g))"
    using assms by (intro week_loop_ok)
  then have "list_all (\<lambda>r. 0 < goal r \<and> 0 < sales_volume r) (fst (week_loop R rnd g))"
    by (rule list.pred_mono_strong) (simp add: record_ok_def)
  then show ?thesis by (simp only: generate_fresh')
qed

lemma demo_random_ok: "random_ok demo_random"
proof -
  have ri: "\<And>a b g :: int. a \<le> b \<Longrightarrow>
      a \<le> a + lcg_draw g mod (b - a + 1) \<and> a + lcg_draw g mod (b - a + 1) \<le> b"
  proof -
    fix a b g :: int assume "a \<le> b"
    then have "0 < b - a + 1" by simp
    then have "0 \<le> lcg_draw g mod (b - a + 1)" "lcg_draw g mod (b - a + 1) < b - a + 1"
      by (simp_all only: pos_mod_sign pos_mod_bound)
    then show "a \<le> a + lcg_draw g mod (b - a + 1) \<and> a + lcg_draw g mod (b - a + 1) \<le> b"
      by simp
  qed
  have un: "\<And>(a::rat) b g. a \<le> b \<Longrightarrow>
      a \<le> a + (b - a) * (of_int (lcg_draw g mod 1000) / 1000)
      \<and> a + (b - a) * (of_int (lcg_draw g mod 1000) / 1000) \<le> b"
  proof -
    fix a b :: rat and g :: int assume ab: "a \<le> b"
    let ?f = "of_int (lcg_draw g mod 1000) / 1000 :: rat"
    have "0 \<le> lcg_draw g mod 1000" "lcg_draw g mod 1000 < 1000" by simp_all
    then have f: "0 \<le> ?f" "?f \<le> 1" by simp_all
    have "0 \<le> (b - a) * ?f" using ab f(1) by simp
    moreover have "(b - a) * ?f \<le> (b - a) * 1"
      using ab f(2) by (intro mult_left_mono) simp_all
    ultimately show "a \<le> a + (b - a) * ?f \<and> a + (b - a) * ?f \<le> b" by simp
  qed
  have ch: "\<And>(xs::string list) g. xs \<noteq> [] \<Longrightarrow>
      xs ! nat (lcg_draw g mod int (length xs)) \<in> set xs"
  proof -
    fix xs :: "string list" and g :: int assume "xs \<noteq> []"
    then have "0 < int (length xs)" by simp
    then have "0 \<le> lcg_draw g mod int (length xs)"
        "lcg_draw g mod int (length xs) < int (length xs)"
      by (simp_all only: pos_mod_sign pos_mod_bound)
    then have "nat (lcg_draw g mod int (length xs)) < length xs" by simp
    then show "xs ! nat (lcg_draw g mod int (length xs)) \<in> set xs" by (rule nth_mem)
  qed
  show ?thesis
    unfolding random_ok_def demo_random_def py_random.select_convs fst_conv
    by (intro conjI allI impI ri [THEN conjunct1] ri [THEN conjunct2]
          un [THEN conjunct1] ch) assumption+
qed

lemma exact_rounding: "float_rounding exact"
  by (simp add: float_rounding_def exact_def mono_def)

theorem generated_goal_and_sales_positive_witness:
  "random_ok demo_random \<and> float_rounding exact
   \<and> list_all (\<lambda>r. 0 < goal r \<and> 0 < sales_volume r)
       (fst (generate_sample_data demo_random exact (fresh 42)))"
  using generated_goal_and_sales_positive [OF demo_random_ok exact_rounding, of 42]
    demo_random_ok exact_rounding
  by (intro conjI)

lemma week_loop_weeks: "set (map week (fst (week_loop R rnd g))) = {1..8}"
proof -
  have "map week (fst (week_loop R rnd g)) = map fst (map record_key (fst (week_loop R rnd g)))"
    by (simp add: record_key_def comp_def)
  also have "\<dots> = map fst combinations"
    by (simp only: week_loop_keys) (simp add: combination_key_def case_prod_beta comp_def)
  finally have "set (map week (fst (week_loop R rnd g))) = fst ` set combinations" by simp
  also have "\<dots> = {1..8}"
    unfolding combinations_def by (auto simp: MARKETS_def ACCOUNTS_def image_iff)
  finally show ?thesis .
qed

text \<open>
  Claim C10. \<open>get_available_weeks\<close> returns the distinct weeks of the dataset in
  ascending order: its result is strictly increasing and its elements are exactly the weeks
  of the records, whatever the dataset is. On the generated dataset it is the list 1 to 8.
\<close>

theorem available_weeks_computed:
  "set (fst (get_available_weeks R rnd p)) = week ` set (fst (generate_sample_data R rnd p))
   \<and> sorted_wrt (<) (fst (get_available_weeks R rnd p))
   \<and> fst (get_available_weeks R rnd (fresh g)) = [1, 2, 3, 4, 5, 6, 7, 8]"
proof -
  have unfold: "\<And>p :: 'a process. fst (get_available_weeks R rnd p) =
      sorted_list_of_set (set (map week (fst (generate_sample_data R rnd p))))"
    by (simp add: get_available_weeks_def case_prod_beta)
  have "fst (get_available_weeks R rnd (fresh g)) = sorted_list_of_set {1..8::int}"
    by (simp only: unfold generate_fresh' week_loop_weeks)
  also have "\<dots> = [1..8]" by simp
  also have "\<dots> = [1, 2, 3, 4, 5, 6, 7, 8]" by code_simp
  finally have default: "fst (get_available_weeks R rnd (fresh g)) = [1, 2, 3, 4, 5, 6, 7, 8]" .
  have "set (fst (get_available_weeks R rnd p)) = week ` set (fst (generate_sample_data R rnd p))"
    by (simp add: unfold)
  moreover have "sorted_wrt (<) (fst (get_available_weeks R rnd p))"
    by (simp add: unfold strict_sorted_iff del: set_map)
  ultimately show ?thesis using default by (intro conjI)
qed

section \<open>The summary\<close>

lemma percent_of_goal_pos:
  "0 < g \<Longrightarrow> percent_of_goal rnd s g =
     Inr (PyFloat (fmul rnd (rnd (of_int s / of_int g)) (float_of_int rnd 100)))"
  by (simp add: percent_of_goal_def int_truediv_def)

lemma percent_of_goal_nonpos: "\<not> 0 < g \<Longrightarrow> percent_of_goal rnd s g = Inr (PyInt 0)"
  by (simp add: percent_of_goal_def)

lemma percent_of_goal_Inr:
  "percent_of_goal rnd s g =
     Inr (if 0 < g then PyFloat (fmul rnd (rnd (of_int s / of_int g)) (float_of_int rnd 100))
          else PyInt 0)"
  by (simp add: percent_of_goal_pos percent_of_goal_nonpos)

lemma summary_unfold:
  "fst (get_summary_metrics R rnd p wk markets) =
    (if filtered R rnd p wk markets = [] then
       Inr \<lparr>total_sales = 0, total_goal = 0, gap_to_goal = 0, attainment = PyInt 0\<rparr>
     else
       Inr \<lparr>total_sales = sum_list (map sales_volume (filtered R rnd p wk markets)),
            total_goal = sum_list (map goal (filtered R rnd p wk markets)),
            gap_to_goal = sum_list (map goal (filtered R rnd p wk markets))
                          - sum_list (map sales_volume (filtered R rnd p wk markets)),
            attainment = py_round rnd
              (if 0 < sum_list (map goal (filtered R rnd p wk markets)) then
                 PyFloat (fmul rnd
                   (rnd (of_int (sum_list (map sales_volume (filtered R rnd p wk markets)))
                         / of_int (sum_list (map goal (filtered R rnd p wk markets)))))
                   (float_of_int rnd 100))
               else PyInt 0) 1\<rparr>)"
  by (simp add: get_summary_metrics_def filtered_def Let_def case_prod_beta
        percent_of_goal_Inr)

lemma summary_totals_filtered:
  assumes "filtered R rnd p wk markets \<noteq> []"
  shows "fst (get_summary_metrics R rnd p wk markets) =
       Inr \<lparr>total_sales = sum_list (map sales_volume (filtered R rnd p wk markets)),
            total_goal = sum_list (map goal (filtered R rnd p wk markets)),
            gap_to_goal = sum_list (map goal (filtered R rnd p wk markets))
                          - sum_list (map sales_volume (filtered R rnd p wk markets)),
            attainment =
              (if 0 < sum_list (map goal (filtered R rnd p wk markets)) then
                 py_round rnd (PyFloat (fmul rnd
                   (rnd (of_int (sum_list (map sales_volume (filtered R rnd p wk markets)))
                         / of_int (sum_list (map goal (filtered R rnd p wk markets)))))
                   (float_of_int rnd 100))) 1
               else PyInt 0)\<rparr>"
proof (cases "0 < sum_list (map goal (filtered R rnd p wk markets))")
  case True
  with assms show ?thesis by (simp only: summary_unfold if_True if_False)
next
  case False
  with assms show ?thesis by (simp only: summary_unfold if_True if_False py_round.simps)
qed

lemma filtered_fresh:
  "filtered R rnd (fresh g) wk markets = filter_markets markets (filter_week wk (fst (week_loop R rnd g)))"
  by (simp add: filtered_def generate_fresh')

lemma filtered_fresh_unknown_week:
  assumes "w \<notin> {1..8}"
  shows "filtered R rnd (fresh g) (Some w) markets = []"
proof -
  have "\<forall>r\<in>set (fst (week_loop R rnd g)). week r \<noteq> w"
    using week_loop_weeks [of R rnd g] assms by auto
  then have "filter_week (Some w) (fst (week_loop R rnd g)) = []"
    by (simp add: filter_week_def filter_empty_conv)
  then show ?thesis by (simp add: filtered_fresh filter_markets_def split: option.splits)
qed

lemma filtered_fresh_unknown_market:
  assumes "set ms \<inter> set MARKETS = {}" "ms \<noteq> []"
  shows "filtered R rnd (fresh g) wk (Some ms) = []"
proof -
  have "\<forall>r\<in>set (fst (week_loop R rnd g)). market r \<in> set MARKETS"
  proof
    fix r assume "r \<in> set (fst (week_loop R rnd g))"
    then have "\<exists>c\<in>set combinations. record_key r = combination_key c"
      by (rule week_loop_member)
    then obtain c where c: "c \<in> set combinations" "record_key r = combination_key c"
      by (elim bexE)
    obtain w m a d where cd: "c = (w, m, a, d)" by (cases c) auto
    from c cd show "market r \<in> set MARKETS"
      by (simp add: record_key_eq combinations_set)
  qed
  then have "\<forall>r\<in>set (filter_week wk (fst (week_loop R rnd g))). market r \<notin> set ms"
    using assms(1) by (auto simp: filter_week_def split: option.splits)
  then show ?thesis using assms(2)
    by (simp add: filtered_fresh filter_markets_def filter_empty_conv)
qed

text \<open>The filtered subset is the dataset filtered by the two conditions.\<close>

lemma filtered_explicit:
  "filtered R rnd p wk markets =
     filter (\<lambda>d. (case wk of None \<Rightarrow> True | Some w \<Rightarrow> week d = w)
               \<and> (case markets of None \<Rightarrow> True | Some ms \<Rightarrow> ms = [] \<or> market d \<in> set ms))
       (fst (generate_sample_data R rnd p))"
proof (cases wk)
  case None
  then show ?thesis
    by (cases markets) (simp_all add: filtered_def filter_week_def filter_markets_def)
next
  case (Some w)
  then show ?thesis
    by (cases markets) (simp_all add: filtered_def filter_week_def filter_markets_def)
qed

lemma week1_dallas_present:
  "filter (\<lambda>d. week d = 1 \<and> market d = ''Dallas'') (fst (generate_sample_data R rnd (fresh g))) \<noteq> []"
proof -
  have "length (filter (\<lambda>r. record_key r = combination_key (1, ''Dallas'', ''Kroger'', 0))
          (fst (week_loop R rnd g))) = 1"
    by (rule week_loop_count) (simp_all add: MARKETS_def ACCOUNTS_def)
  then have "filter (\<lambda>r. record_key r = combination_key (1, ''Dallas'', ''Kroger'', 0))
          (fst (week_loop R rnd g)) \<noteq> []"
    by auto
  then obtain r where r: "r \<in> set (fst (week_loop R rnd g))"
      "record_key r = combination_key (1, ''Dallas'', ''Kroger'', 0)"
    by (auto simp: filter_empty_conv)
  from r(2) have "week r = 1 \<and> market r = ''Dallas''" by (simp add: record_key_eq)
  with r(1) show ?thesis
    by (simp only: generate_fresh' filter_empty_conv) blast
qed

text \<open>
  Claim C2. For every week filter and every markets filter, let \<open>sub\<close> be the records of
  the dataset whose week equals the week filter (when one is given) and whose market is one
  of the given markets (when a non-empty list is given). When \<open>sub\<close> is not empty,
  \<open>get_summary_metrics\<close> returns (without raising) the sum of \<open>sales_volume\<close> over
  \<open>sub\<close> as \<open>total_sales\<close>, the sum of \<open>goal\<close> as \<open>total_goal\<close>, their difference
  \<open>total_goal - total_sales\<close> as \<open>gap_to_goal\<close>, and as \<open>attainment\<close> the float
  \<open>total_sales / total_goal * 100\<close> rounded to one decimal when \<open>total_goal\<close> is
  positive, the integer 0 otherwise.
\<close>

theorem summary_totals:
  assumes sub: "sub = filter (\<lambda>d. (case wk of None \<Rightarrow> True | Some w \<Rightarrow> week d = w)
                   \<and> (case markets of None \<Rightarrow> True | Some ms \<Rightarrow> ms = [] \<or> market d \<in> set ms))
                 (fst (generate_sample_data R rnd p))"
    and nonempty: "sub \<noteq> []"
  shows "fst (get_summary_metrics R rnd p wk markets) =
       Inr \<lparr>total_sales = sum_list (map sales_volume sub),
            total_goal = sum_list (map goal sub),
            gap_to_goal = sum_list (map goal sub) - sum_list (map sales_volume sub),
            attainment =
              (if 0 < sum_list (map goal sub) then
                 py_round rnd (PyFloat (fmul rnd
                   (rnd (of_int (sum_list (map sales_volume sub)) / of_int (sum_list (map goal sub))))
                   (float_of_int rnd 100))) 1
               else PyInt 0)\<rparr>"
proof -
  have eq: "filtered R rnd p wk markets = sub"
    unfolding sub by (rule filtered_explicit)
  with nonempty have "filtered R rnd p wk markets \<noteq> []" by simp
  then show ?thesis
    unfolding eq [symmetric] by (rule summary_totals_filtered)
qed

theorem summary_totals_witness:
  "filter (\<lambda>d. week d = 1 \<and> market d = ''Dallas'')
      (fst (generate_sample_data demo_random exact (fresh 42))) \<noteq> []
   \<and> fst (get_summary_metrics demo_random exact (fresh 42) (Some 1) (Some [''Dallas''])) =
       Inr \<lparr>total_sales = sum_list (map sales_volume
              (filter (\<lambda>d. week d = 1 \<and> market d = ''Dallas'')
                 (fst (generate_sample_data demo_random exact (fresh 42))))),
            total_goal = sum_list (map goal
              (filter (\<lambda>d. week d = 1 \<and> market d = ''Dallas'')
                 (fst (generate_sample_data demo_random exact (fresh 42))))),
            gap_to_goal = sum_list (map goal
              (filter (\<lambda>d. week d = 1 \<and> market d = ''Dallas'')
                 (fst (generate_sample_data demo_random exact (fresh 42)))))
              - sum_list (map sales_volume
              (filter (\<lambda>d. week d = 1 \<and> market d = ''Dallas'')
                 (fst (generate_sample_data demo_random exact (fresh 42))))),
            attainment =
              (if 0 < sum_list (map goal
                   (filter (\<lambda>d. week d = 1 \<and> market d = ''Dallas'')
                      (fst (generate_sample_data demo_random exact (fresh 42))))) then
                 py_round exact (PyFloat (fmul exact
                   (exact (of_int (sum_list (map sales_volume
                       (filter (\<lambda>d. week d = 1 \<and> market d = ''Dallas'')
                          (fst (generate_sample_data demo_random exact (fresh 42))))))
                     / of_int (sum_list (map goal
                       (filter (\<lambda>d. week d = 1 \<and> market d = ''Dallas'')
                          (fst (generate_sample_data demo_random exact (fresh 42))))))))
                   (float_of_int exact 100))) 1
               else PyInt 0)\<rparr>"
proof -
  let ?sub = "filter (\<lambda>d. week d = 1 \<and> market d = ''Dallas'')
      (fst (generate_sample_data demo_random exact (fresh 42)))"
  have sub: "?sub = filter (\<lambda>d. (case Some 1 of None \<Rightarrow> True | Some w \<Rightarrow> week d = w)
                   \<and> (case Some [''Dallas''] of None \<Rightarrow> True
                       | Some ms \<Rightarrow> ms = [] \<or> market d \<in> set ms))
                 (fst (generate_sample_data demo_random exact (fresh 42)))"
    by simp
  have nonempty: "?sub \<noteq> []" by (rule week1_dallas_present)
  from summary_totals [OF sub nonempty] nonempty show ?thesis by (intro conjI)
qed

text \<open>
  Claim C7. \<open>get_summary_metrics\<close> never raises: for every process state, week filter
  and markets filter it returns a summary, and when the filtered subset is empty (a week
  that is not in the dataset, a market outside the fixed names) the four fields are 0.
\<close>

theorem summary_never_raises:
  "(\<exists>s. fst (get_summary_metrics R rnd p wk markets) = Inr s)
   \<and> (filtered R rnd p wk markets = [] \<longrightarrow>
        fst (get_summary_metrics R rnd p wk markets) =
          Inr \<lparr>total_sales = 0, total_goal = 0, gap_to_goal = 0, attainment = PyInt 0\<rparr>)"
  by (simp add: summary_unfold)

theorem summary_never_raises_witness:
  "filtered demo_random exact (fresh 42) (Some 99) None = []
   \<and> fst (get_summary_metrics demo_random exact (fresh 42) (Some 99) None) =
          Inr \<lparr>total_sales = 0, total_goal = 0, gap_to_goal = 0, attainment = PyInt 0\<rparr>
   \<and> filtered demo_random exact (fresh 42) (Some 3) (Some [''El Paso'']) = []
   \<and> fst (get_summary_metrics demo_random exact (fresh 42) (Some 3) (Some [''El Paso''])) =
          Inr \<lparr>total_sales = 0, total_goal = 0, gap_to_goal = 0, attainment = PyInt 0\<rparr>"
proof -
  have e1: "filtered demo_random exact (fresh 42) (Some 99) None = []"
    by (rule filtered_fresh_unknown_week) simp
  have e2: "filtered demo_random exact (fresh 42) (Some 3) (Some [''El Paso'']) = []"
    by (rule filtered_fresh_unknown_market) (simp_all add: MARKETS_def)
  from e1 e2
    summary_never_raises [of demo_random exact "fresh 42" "Some 99" None, THEN conjunct2, THEN mp, OF e1]
    summary_never_raises [of demo_random exact "fresh 42" "Some 3" "Some [''El Paso'']",
      THEN conjunct2, THEN mp, OF e2]
  show ?thesis by (intro conjI)
qed

section \<open>Dictionary updates\<close>

lemma map_of_dict_set: "map_of (dict_set k v d) = (map_of d)(k \<mapsto> v)"
  by (induction d) (auto simp: fun_eq_iff)

lemma keys_dict_set:
  "map fst (dict_set k v d) = (if k \<in> fst ` set d then map fst d else map fst d @ [k])"
proof (induction d)
  case Nil
  then show ?case by simp
next
  case (Cons a d)
  obtain k' v' where a: "a = (k', v')" by (cases a)
  show ?case
  proof (cases "k' = k")
    case True
    then show ?thesis by (simp add: a)
  next
    case False
    then have "k \<in> fst ` set (a # d) \<longleftrightarrow> k \<in> fst ` set d" by (auto simp: a)
    then show ?thesis using False Cons.IH by (simp add: a)
  qed
qed

lemma distinct_dict_set:
  "distinct (map fst d) \<Longrightarrow> distinct (map fst (dict_set k v d))"
  by (simp add: keys_dict_set)

lemma sum_dict_set_new:
  "map_of d k = None \<Longrightarrow>
     sum_list (map snd (dict_set k v d)) = sum_list (map snd d) + (v::int)"
  by (induction d) (auto split: if_splits)

lemma sum_dict_set_old:
  "distinct (map fst d) \<Longrightarrow> map_of d k = Some v0 \<Longrightarrow>
     sum_list (map snd (dict_set k v d)) = sum_list (map snd d) - v0 + (v::int)"
  by (induction d) (auto split: if_splits)

section \<open>The daily trend\<close>

lemma daily_step:
  "daily_totals_loop (r # rs) dt =
     daily_totals_loop rs
       (case map_of dt (date r) of
          None \<Rightarrow> dict_set (date r) (0 + sales_volume r) (dict_set (date r) 0 dt)
        | Some v \<Rightarrow> dict_set (date r) (v + sales_volume r) dt)"
  by (simp add: dict_contains_def dict_get_def map_of_dict_set Let_def split: option.splits)

lemma daily_totals_loop_sum:
  "distinct (map fst dt) \<Longrightarrow>
   \<exists>dt'. daily_totals_loop rs dt = Inr dt' \<and> distinct (map fst dt')
     \<and> sum_list (map snd dt') = sum_list (map snd dt) + sum_list (map sales_volume rs)"
proof (induction rs arbitrary: dt)
  case Nil
  then show ?case by simp
next
  case (Cons r rs)
  let ?next = "case map_of dt (date r) of
          None \<Rightarrow> dict_set (date r) (0 + sales_volume r) (dict_set (date r) 0 dt)
        | Some v \<Rightarrow> dict_set (date r) (v + sales_volume r) dt"
  have d: "distinct (map fst ?next)"
    using Cons.prems by (simp add: distinct_dict_set split: option.splits)
  have s: "sum_list (map snd ?next) = sum_list (map snd dt) + sales_volume r"
  proof (cases "map_of dt (date r)")
    case None
    have "sum_list (map snd (dict_set (date r) 0 dt)) = sum_list (map snd dt)"
      using sum_dict_set_new [OF None, of 0] by simp
    moreover have "sum_list (map snd (dict_set (date r) (0 + sales_volume r) (dict_set (date r) 0 dt)))
        = sum_list (map snd (dict_set (date r) 0 dt)) - 0 + (0 + sales_volume r)"
      by (rule sum_dict_set_old) (simp_all add: distinct_dict_set Cons.prems map_of_dict_set)
    ultimately show ?thesis using None by simp
  next
    case (Some v)
    then show ?thesis using sum_dict_set_old [OF Cons.prems Some] by simp
  qed
  from Cons.IH [OF d] obtain dt' where
    "daily_totals_loop rs ?next = Inr dt'" "distinct (map fst dt')"
    "sum_list (map snd dt') = sum_list (map snd ?next) + sum_list (map sales_volume rs)"
    by blast
  then show ?case by (simp only: daily_step s) simp
qed

lemma sum_insort: "sum_list (map f (insort x xs)) = f x + sum_list (map (f :: _ \<Rightarrow> int) xs)"
  by (induction xs) simp_all

lemma sum_sort: "sum_list (map f (sort xs)) = sum_list (map (f :: _ \<Rightarrow> int) xs)"
  by (induction xs) (simp_all add: sum_insort)

lemma sorted_fst:
  fixes xs :: "(string \<times> int) list"
  shows "sorted xs \<Longrightarrow> sorted (map fst xs)"
  by (induction xs) (auto simp: less_eq_prod_def)

lemma distinct_fst_sort:
  fixes xs :: "(string \<times> int) list"
  assumes "distinct (map fst xs)"
  shows "distinct (map fst (sort xs))"
  using assms by (simp add: distinct_map)

lemma generate_keeps_filtered:
  "filtered R rnd (snd (generate_sample_data R rnd p)) wk markets = filtered R rnd p wk markets"
  by (simp add: filtered_def generate_cached [OF generate_fills_cache])

lemma daily_trend_state:
  "snd (get_daily_trend R rnd p wk markets) = snd (generate_sample_data R rnd p)"
  using daily_totals_loop_sum [of "[]" "filtered R rnd p wk markets"]
  by (auto simp: get_daily_trend_def filtered_def case_prod_beta Let_def)

text \<open>
  Claim C5. For every week filter and every markets filter \<open>get_daily_trend\<close> returns
  (without raising) entries whose date strings are strictly increasing, and the sum of their
  sales equals the \<open>total_sales\<close> that \<open>get_summary_metrics\<close> returns for the same
  filters, called on the same process state or on the state that \<open>get_daily_trend\<close>
  leaves.
\<close>

theorem daily_trend_increasing_and_total:
  "\<exists>t s. fst (get_daily_trend R rnd p wk markets) = Inr t
     \<and> fst (get_summary_metrics R rnd p wk markets) = Inr s
     \<and> fst (get_summary_metrics R rnd (snd (get_daily_trend R rnd p wk markets)) wk markets) = Inr s
     \<and> sorted_wrt (<) (map date_d t)
     \<and> sum_list (map sales_d t) = total_sales s"
proof -
  obtain dt where dt: "daily_totals_loop (filtered R rnd p wk markets) [] = Inr dt"
    "distinct (map fst dt)"
    "sum_list (map snd dt) = sum_list (map sales_volume (filtered R rnd p wk markets))"
    using daily_totals_loop_sum [of "[]" "filtered R rnd p wk markets"] by auto
  let ?t = "map (\<lambda>(d, total). \<lparr>date_d = d, sales_d = total\<rparr>) (sort dt)"
  have t: "fst (get_daily_trend R rnd p wk markets) = Inr ?t"
    using dt(1) by (simp add: get_daily_trend_def filtered_def case_prod_beta Let_def)
  have dates: "map date_d ?t = map fst (sort dt)" by (simp add: case_prod_beta comp_def)
  have sales: "map sales_d ?t = map snd (sort dt)" by (simp add: case_prod_beta comp_def)
  have inc: "sorted_wrt (<) (map date_d ?t)"
    unfolding dates by (simp add: strict_sorted_iff sorted_fst distinct_fst_sort dt(2) del: sorted_wrt_map)
  have total: "sum_list (map sales_d ?t) = sum_list (map sales_volume (filtered R rnd p wk markets))"
    unfolding sales by (simp add: sum_sort dt(3))
  have "\<exists>s. fst (get_summary_metrics R rnd p wk markets) = Inr s
      \<and> total_sales s = sum_list (map sales_volume (filtered R rnd p wk markets))"
    by (simp add: summary_unfold)
  then obtain s where s: "fst (get_summary_metrics R rnd p wk markets) = Inr s"
    "total_sales s = sum_list (map sales_volume (filtered R rnd p wk markets))" by blast
  have after: "fst (get_summary_metrics R rnd (snd (get_daily_trend R rnd p wk markets)) wk markets)
      = fst (get_summary_metrics R rnd p wk markets)"
    by (simp only: summary_unfold daily_trend_state generate_keeps_filtered)
  from t s inc total after show ?thesis by (intro exI [of _ ?t] exI [of _ s]) simp
qed

section \<open>The territory summary\<close>

lemma keyset_dict_set: "fst ` set (dict_set k v d) = insert k (fst ` set d)"
proof -
  have "set (map fst (dict_set k v d)) = insert k (set (map fst d))"
    unfolding keys_dict_set by auto
  then show ?thesis by simp
qed

lemma market_step:
  "\<exists>mt1. market_totals_loop (r # rs) mt = market_totals_loop rs mt1
     \<and> map_of mt1 = (map_of mt)(market r \<mapsto>
          \<lparr>sales_t = (case map_of mt (market r) of None \<Rightarrow> 0 | Some t \<Rightarrow> sales_t t) + sales_volume r,
           goal_t = (case map_of mt (market r) of None \<Rightarrow> 0 | Some t \<Rightarrow> goal_t t) + goal r\<rparr>)
     \<and> map fst mt1 = (if market r \<in> fst ` set mt then map fst mt else map fst mt @ [market r])"
proof (cases "map_of mt (market r)")
  case None
  let ?m = "market r"
  let ?mt0 = "dict_set ?m \<lparr>sales_t = 0, goal_t = 0\<rparr> mt"
  let ?mt1 = "dict_set ?m \<lparr>sales_t = 0 + sales_volume r, goal_t = 0\<rparr> ?mt0"
  let ?mt2 = "dict_set ?m \<lparr>sales_t = 0 + sales_volume r, goal_t = 0 + goal r\<rparr> ?mt1"
  have notin: "?m \<notin> fst ` set mt" using None by (simp add: map_of_eq_None_iff)
  have "market_totals_loop (r # rs) mt = market_totals_loop rs ?mt2"
    using None by (simp add: dict_contains_def dict_get_def map_of_dict_set Let_def)
  moreover have "map_of ?mt2 = (map_of mt)(?m \<mapsto> \<lparr>sales_t = 0 + sales_volume r, goal_t = 0 + goal r\<rparr>)"
    by (simp add: map_of_dict_set)
  moreover have "map fst ?mt2 = map fst mt @ [?m]"
    using notin by (simp add: keys_dict_set keyset_dict_set)
  ultimately show ?thesis using None notin by (intro exI [of _ ?mt2]) simp
next
  case (Some t)
  let ?m = "market r"
  let ?mt1 = "dict_set ?m (t\<lparr>sales_t := sales_t t + sales_volume r\<rparr>) mt"
  let ?mt2 = "dict_set ?m (t\<lparr>sales_t := sales_t t + sales_volume r,
                              goal_t := goal_t t + goal r\<rparr>) ?mt1"
  have isin: "?m \<in> fst ` set mt"
  proof -
    from Some have "(?m, t) \<in> set mt" by (rule map_of_SomeD)
    then have "fst (?m, t) \<in> fst ` set mt" by (rule imageI)
    then show ?thesis by simp
  qed
  have rec: "t\<lparr>sales_t := sales_t t + sales_volume r, goal_t := goal_t t + goal r\<rparr> =
      \<lparr>sales_t = sales_t t + sales_volume r, goal_t = goal_t t + goal r\<rparr>"
    by (cases t) simp
  have "market_totals_loop (r # rs) mt = market_totals_loop rs ?mt2"
    using Some by (simp add: dict_contains_def dict_get_def map_of_dict_set Let_def)
  moreover have "map_of ?mt2 = (map_of mt)(?m \<mapsto>
      \<lparr>sales_t = sales_t t + sales_volume r, goal_t = goal_t t + goal r\<rparr>)"
    unfolding rec [symmetric] by (simp add: map_of_dict_set)
  moreover have "map fst ?mt2 = map fst mt"
    using isin by (simp add: keys_dict_set keyset_dict_set)
  ultimately show ?thesis using Some isin by (intro exI [of _ ?mt2]) simp
qed

lemma market_sales_Cons:
  "market_sales (r # rs) m = (if market r = m then sales_volume r else 0) + market_sales rs m"
  by (simp add: market_sales_def)

lemma market_goal_Cons:
  "market_goal (r # rs) m = (if market r = m then goal r else 0) + market_goal rs m"
  by (simp add: market_goal_def)

lemma market_totals_loop_spec:
  "distinct (map fst mt) \<Longrightarrow>
   \<exists>mt'. market_totals_loop rs mt = Inr mt' \<and> distinct (map fst mt')
     \<and> fst ` set mt' = fst ` set mt \<union> market ` set rs
     \<and> (\<forall>m t. map_of mt' m = Some t \<longrightarrow>
          t = \<lparr>sales_t = (case map_of mt m of None \<Rightarrow> 0 | Some t0 \<Rightarrow> sales_t t0) + market_sales rs m,
               goal_t = (case map_of mt m of None \<Rightarrow> 0 | Some t0 \<Rightarrow> goal_t t0) + market_goal rs m\<rparr>)"
proof (induction rs arbitrary: mt)
  case Nil
  show ?case
  proof (intro exI [of _ mt] conjI allI impI)
    fix m t assume "map_of mt m = Some t"
    then show "t = \<lparr>sales_t = (case map_of mt m of None \<Rightarrow> 0 | Some t0 \<Rightarrow> sales_t t0) + market_sales [] m,
               goal_t = (case map_of mt m of None \<Rightarrow> 0 | Some t0 \<Rightarrow> goal_t t0) + market_goal [] m\<rparr>"
      by (simp add: market_sales_def market_goal_def)
  qed (simp_all add: Nil)
next
  case (Cons r rs)
  obtain mt1 where step: "market_totals_loop (r # rs) mt = market_totals_loop rs mt1"
    and m1: "map_of mt1 = (map_of mt)(market r \<mapsto>
          \<lparr>sales_t = (case map_of mt (market r) of None \<Rightarrow> 0 | Some t \<Rightarrow> sales_t t) + sales_volume r,
           goal_t = (case map_of mt (market r) of None \<Rightarrow> 0 | Some t \<Rightarrow> goal_t t) + goal r\<rparr>)"
    and k1: "map fst mt1 = (if market r \<in> fst ` set mt then map fst mt else map fst mt @ [market r])"
    using market_step [of r rs mt] by blast
  have d1: "distinct (map fst mt1)" using Cons.prems by (simp add: k1)
  have s1: "fst ` set mt1 = insert (market r) (fst ` set mt)"
  proof -
    have "set (map fst mt1) = insert (market r) (set (map fst mt))"
      unfolding k1 by auto
    then show ?thesis by simp
  qed
  from Cons.IH [OF d1] obtain mt' where loop: "market_totals_loop rs mt1 = Inr mt'"
    and d': "distinct (map fst mt')"
    and s': "fst ` set mt' = fst ` set mt1 \<union> market ` set rs"
    and v': "\<forall>m t. map_of mt' m = Some t \<longrightarrow>
          t = \<lparr>sales_t = (case map_of mt1 m of None \<Rightarrow> 0 | Some t0 \<Rightarrow> sales_t t0) + market_sales rs m,
               goal_t = (case map_of mt1 m of None \<Rightarrow> 0 | Some t0 \<Rightarrow> goal_t t0) + market_goal rs m\<rparr>"
    by blast
  show ?case
  proof (intro exI [of _ mt'] conjI allI impI)
    show "market_totals_loop (r # rs) mt = Inr mt'" by (simp only: step loop)
    show "distinct (map fst mt')" by (rule d')
    show "fst ` set mt' = fst ` set mt \<union> market ` set (r # rs)"
      unfolding s' s1 by auto
  next
    fix m t assume "map_of mt' m = Some t"
    with v' have t: "t = \<lparr>sales_t = (case map_of mt1 m of None \<Rightarrow> 0 | Some t0 \<Rightarrow> sales_t t0) + market_sales rs m,
               goal_t = (case map_of mt1 m of None \<Rightarrow> 0 | Some t0 \<Rightarrow> goal_t t0) + market_goal rs m\<rparr>"
      by blast
    show "t = \<lparr>sales_t = (case map_of mt m of None \<Rightarrow> 0 | Some t0 \<Rightarrow> sales_t t0) + market_sales (r # rs) m,
               goal_t = (case map_of mt m of None \<Rightarrow> 0 | Some t0 \<Rightarrow> goal_t t0) + market_goal (r # rs) m\<rparr>"
      unfolding t m1 market_sales_Cons market_goal_Cons
      by (cases "market r = m") simp_all
  qed
qed

lemma territory_rows_map:
  "territory_rows rnd mt =
     Inr (map (\<lambda>(m, t). \<lparr>market_r = m, sales_r = sales_t t, goal_r = goal_t t,
            attainment_r = py_round rnd
              (if 0 < goal_t t then
                 PyFloat (fmul rnd (rnd (of_int (sales_t t) / of_int (goal_t t)))
                   (float_of_int rnd 100))
               else PyInt 0) 1\<rparr>) mt)"
  by (induction rnd mt rule: territory_rows.induct) (simp_all add: percent_of_goal_Inr)

lemma sort_reverse_set: "set (sort_reverse key xs) = set xs"
  by (simp add: sort_reverse_def)

lemma sort_reverse_length: "length (sort_reverse key xs) = length xs"
  by (simp add: sort_reverse_def)

lemma sort_reverse_distinct:
  "distinct (map f xs) \<Longrightarrow> distinct (map f (sort_reverse key xs))"
  by (simp add: sort_reverse_def distinct_map)

lemma sort_reverse_descending: "sorted (rev (map key (sort_reverse key xs)))"
  by (simp add: sort_reverse_def rev_map [symmetric])

lemma territory_unfold:
  "\<exists>mt. market_totals_loop (filter_week wk (fst (generate_sample_data R rnd p))) [] = Inr mt
     \<and> distinct (map fst mt)
     \<and> fst ` set mt = market ` set (filter_week wk (fst (generate_sample_data R rnd p)))
     \<and> (\<forall>m t. (m, t) \<in> set mt \<longrightarrow>
           t = \<lparr>sales_t = market_sales (filter_week wk (fst (generate_sample_data R rnd p))) m,
                goal_t = market_goal (filter_week wk (fst (generate_sample_data R rnd p))) m\<rparr>)
     \<and> fst (get_territory_summary R rnd p wk) =
         Inr (sort_reverse (\<lambda>x. num_value (attainment_r x))
           (map (\<lambda>(m, t). \<lparr>market_r = m, sales_r = sales_t t, goal_r = goal_t t,
              attainment_r = py_round rnd
                (if 0 < goal_t t then
                   PyFloat (fmul rnd (rnd (of_int (sales_t t) / of_int (goal_t t)))
                     (float_of_int rnd 100))
                 else PyInt 0) 1\<rparr>) mt))"
proof -
  let ?data = "filter_week wk (fst (generate_sample_data R rnd p))"
  from market_totals_loop_spec [of "[]" ?data]
  obtain mt where loop: "market_totals_loop ?data [] = Inr mt"
    and d: "distinct (map fst mt)"
    and s: "fst ` set mt = fst ` set [] \<union> market ` set ?data"
    and v: "\<forall>m t. map_of mt m = Some t \<longrightarrow>
          t = \<lparr>sales_t = (case map_of [] m of None \<Rightarrow> 0 | Some t0 \<Rightarrow> sales_t t0) + market_sales ?data m,
               goal_t = (case map_of [] m of None \<Rightarrow> 0 | Some t0 \<Rightarrow> goal_t t0) + market_goal ?data m\<rparr>"
    by auto
  have v': "\<forall>m t. (m, t) \<in> set mt \<longrightarrow>
           t = \<lparr>sales_t = market_sales ?data m, goal_t = market_goal ?data m\<rparr>"
  proof (intro allI impI)
    fix m t assume "(m, t) \<in> set mt"
    with d have "map_of mt m = Some t" by simp
    with v show "t = \<lparr>sales_t = market_sales ?data m, goal_t = market_goal ?data m\<rparr>"
      by simp
  qed
  have r: "fst (get_territory_summary R rnd p wk) =
         Inr (sort_reverse (\<lambda>x. num_value (attainment_r x))
           (map (\<lambda>(m, t). \<lparr>market_r = m, sales_r = sales_t t, goal_r = goal_t t,
              attainment_r = py_round rnd
                (if 0 < goal_t t then
                   PyFloat (fmul rnd (rnd (of_int (sales_t t) / of_int (goal_t t)))
                     (float_of_int rnd 100))
                 else PyInt 0) 1\<rparr>) mt))"
    by (simp add: get_territory_summary_def case_prod_beta Let_def loop territory_rows_map)
  from loop d s v' r show ?thesis by (intro exI [of _ mt]) simp
qed

lemma territory_spec:
  "\<exists>rows. fst (get_territory_summary R rnd p wk) = Inr rows
     \<and> (\<forall>r\<in>set rows.
          sales_r r = market_sales (filter_week wk (fst (generate_sample_data R rnd p))) (market_r r)
        \<and> goal_r r = market_goal (filter_week wk (fst (generate_sample_data R rnd p))) (market_r r)
        \<and> attainment_r r =
            (if 0 < goal_r r then
               py_round rnd (PyFloat (fmul rnd (rnd (of_int (sales_r r) / of_int (goal_r r)))
                 (float_of_int rnd 100))) 1
             else PyInt 0))
     \<and> distinct (map market_r rows)
     \<and> set (map market_r rows) = market ` set (filter_week wk (fst (generate_sample_data R rnd p)))
     \<and> sorted (rev (map (\<lambda>r. num_value (attainment_r r)) rows))"
proof -
  let ?data = "filter_week wk (fst (generate_sample_data R rnd p))"
  let ?row = "\<lambda>(m, t). \<lparr>market_r = m, sales_r = sales_t t, goal_r = goal_t t,
              attainment_r = py_round rnd
                (if 0 < goal_t t then
                   PyFloat (fmul rnd (rnd (of_int (sales_t t) / of_int (goal_t t)))
                     (float_of_int rnd 100))
                 else PyInt 0) 1\<rparr>"
  let ?key = "\<lambda>x. num_value (attainment_r x)"
  from territory_unfold [of wk R rnd p]
  obtain mt where d: "distinct (map fst mt)"
    and s: "fst ` set mt = market ` set ?data"
    and v: "\<forall>m t. (m, t) \<in> set mt \<longrightarrow>
           t = \<lparr>sales_t = market_sales ?data m, goal_t = market_goal ?data m\<rparr>"
    and r: "fst (get_territory_summary R rnd p wk) = Inr (sort_reverse ?key (map ?row mt))"
    by blast
  let ?rows = "sort_reverse ?key (map ?row mt)"
  have names: "map market_r (map ?row mt) = map fst mt"
    by (simp add: case_prod_beta comp_def)
  have each: "\<forall>r\<in>set ?rows.
          sales_r r = market_sales ?data (market_r r)
        \<and> goal_r r = market_goal ?data (market_r r)
        \<and> attainment_r r =
            (if 0 < goal_r r then
               py_round rnd (PyFloat (fmul rnd (rnd (of_int (sales_r r) / of_int (goal_r r)))
                 (float_of_int rnd 100))) 1
             else PyInt 0)"
  proof
    fix x assume "x \<in> set ?rows"
    then have "x \<in> set (map ?row mt)" by (simp only: sort_reverse_set)
    then obtain m t where mt: "(m, t) \<in> set mt" and x: "x = ?row (m, t)" by auto
    from v mt have t: "t = \<lparr>sales_t = market_sales ?data m, goal_t = market_goal ?data m\<rparr>"
      by blast
    show "sales_r x = market_sales ?data (market_r x)
        \<and> goal_r x = market_goal ?data (market_r x)
        \<and> attainment_r x =
            (if 0 < goal_r x then
               py_round rnd (PyFloat (fmul rnd (rnd (of_int (sales_r x) / of_int (goal_r x)))
                 (float_of_int rnd 100))) 1
             else PyInt 0)"
      unfolding x t by simp
  qed
  have dist: "distinct (map market_r ?rows)"
    by (rule sort_reverse_distinct) (simp only: names d)
  have "set (map market_r ?rows) = market_r ` set ?rows" by (rule set_map)
  also have "\<dots> = market_r ` set (map ?row mt)" by (simp only: sort_reverse_set)
  also have "\<dots> = set (map market_r (map ?row mt))" by (rule set_map [symmetric])
  also have "\<dots> = set (map fst mt)" by (simp only: names)
  also have "\<dots> = fst ` set mt" by (rule set_map)
  finally have keys: "set (map market_r ?rows) = market ` set ?data" by (simp only: s)
  have desc: "sorted (rev (map ?key ?rows))" by (rule sort_reverse_descending)
  from r each dist keys desc show ?thesis by (intro exI [of _ ?rows] conjI)
qed

lemma week_loop_markets: "market ` set (fst (week_loop R rnd g)) = set MARKETS"
proof -
  have "map market (fst (week_loop R rnd g)) =
      map (\<lambda>k. fst (snd k)) (map record_key (fst (week_loop R rnd g)))"
    by (simp add: record_key_def comp_def)
  also have "\<dots> = map (\<lambda>c. fst (snd c)) combinations"
    by (simp only: week_loop_keys) (simp add: combination_key_def case_prod_beta comp_def)
  finally have "set (map market (fst (week_loop R rnd g))) = (\<lambda>c. fst (snd c)) ` set combinations"
    by simp
  also have "\<dots> = set MARKETS"
  proof (intro set_eqI iffI)
    fix m assume "m \<in> (\<lambda>c. fst (snd c)) ` set combinations"
    then obtain c where c: "c \<in> set combinations" "m = fst (snd c)" by (elim imageE)
    obtain w m' a d where cd: "c = (w, m', a, d)" by (cases c) auto
    from c cd show "m \<in> set MARKETS" by (simp add: combinations_set)
  next
    fix m assume "m \<in> set MARKETS"
    then have "(1 :: int, m, ''Kroger'', 0 :: int) \<in> set combinations"
      by (simp add: combinations_set ACCOUNTS_def)
    then have "fst (snd (1 :: int, m, ''Kroger'', 0 :: int)) \<in> (\<lambda>c. fst (snd c)) ` set combinations"
      by (rule imageI)
    then show "m \<in> (\<lambda>c. fst (snd c)) ` set combinations" by simp
  qed
  finally show ?thesis by simp
qed

text \<open>
  Claim C4. For every week filter \<open>get_territory_summary\<close> returns (without raising)
  one entry per market of the filtered records: the markets of the entries are distinct and
  are exactly the markets that occur, the sales and the goal of an entry are the sums of
  \<open>sales_volume\<close> and \<open>goal\<close> over the filtered records of its market, its attainment
  is the rounded percentage, or the integer 0 when the goal is not positive, and the entries
  are in descending order of attainment. With no week filter on the generated dataset there
  are exactly 5 entries, one for each of the fixed markets.
\<close>

theorem territory_summary_by_market:
  "(\<exists>rows. fst (get_territory_summary R rnd p wk) = Inr rows
     \<and> (\<forall>r\<in>set rows.
          sales_r r = market_sales (filter_week wk (fst (generate_sample_data R rnd p))) (market_r r)
        \<and> goal_r r = market_goal (filter_week wk (fst (generate_sample_data R rnd p))) (market_r r)
        \<and> attainment_r r =
            (if 0 < goal_r r then
               py_round rnd (PyFloat (fmul rnd (rnd (of_int (sales_r r) / of_int (goal_r r)))
                 (float_of_int rnd 100))) 1
             else PyInt 0))
     \<and> distinct (map market_r rows)
     \<and> set (map market_r rows) = market ` set (filter_week wk (fst (generate_sample_data R rnd p)))
     \<and> sorted (rev (map (\<lambda>r. num_value (attainment_r r)) rows)))
   \<and> (\<exists>rows. fst (get_territory_summary R rnd (fresh g) None) = Inr rows
     \<and> length rows = 5 \<and> distinct (map market_r rows) \<and> set (map market_r rows) = set MARKETS)"
proof
  show "\<exists>rows. fst (get_territory_summary R rnd p wk) = Inr rows
     \<and> (\<forall>r\<in>set rows.
          sales_r r = market_sales (filter_week wk (fst (generate_sample_data R rnd p))) (market_r r)
        \<and> goal_r r = market_goal (filter_week wk (fst (generate_sample_data R rnd p))) (market_r r)
        \<and> attainment_r r =
            (if 0 < goal_r r then
               py_round rnd (PyFloat (fmul rnd (rnd (of_int (sales_r r) / of_int (goal_r r)))
                 (float_of_int rnd 100))) 1
             else PyInt 0))
     \<and> distinct (map market_r rows)
     \<and> set (map market_r rows) = market ` set (filter_week wk (fst (generate_sample_data R rnd p)))
     \<and> sorted (rev (map (\<lambda>r. num_value (attainment_r r)) rows))"
    by (rule territory_spec)
next
  from territory_spec [of R rnd "fresh g" None]
  obtain rows where r: "fst (get_territory_summary R rnd (fresh g) None) = Inr rows"
    and d: "distinct (map market_r rows)"
    and s: "set (map market_r rows) =
        market ` set (filter_week None (fst (generate_sample_data R rnd (fresh g))))"
    by blast
  have s': "set (map market_r rows) = set MARKETS"
    unfolding s by (simp add: filter_week_def generate_fresh' week_loop_markets)
  have "length rows = length (map market_r rows)" by simp
  also have "\<dots> = card (set (map market_r rows))" using d by (simp only: distinct_card)
  also have "\<dots> = card (set MARKETS)" by (simp only: s')
  also have "\<dots> = 5" using MARKETS_distinct by (simp add: distinct_card)
  finally have "length rows = 5" .
  with r d s' show "\<exists>rows. fst (get_territory_summary R rnd (fresh g) None) = Inr rows
     \<and> length rows = 5 \<and> distinct (map market_r rows) \<and> set (map market_r rows) = set MARKETS"
    by (intro exI [of _ rows] conjI)
qed

theorem territory_summary_by_market_witness:
  "\<exists>rows r. fst (get_territory_summary demo_random exact (fresh 42) None) = Inr rows
     \<and> length rows = 5 \<and> r \<in> set rows \<and> market_r r = ''Dallas''
     \<and> sales_r r = market_sales (fst (generate_sample_data demo_random exact (fresh 42))) ''Dallas''
     \<and> goal_r r = market_goal (fst (generate_sample_data demo_random exact (fresh 42))) ''Dallas''"
proof -
  note t = territory_summary_by_market [of demo_random exact "fresh 42" None 42]
  from t [THEN conjunct1] obtain rows where
    r: "fst (get_territory_summary demo_random exact (fresh 42) None) = Inr rows"
    and each: "\<forall>r\<in>set rows.
          sales_r r = market_sales (filter_week None (fst (generate_sample_data demo_random exact (fresh 42)))) (market_r r)
        \<and> goal_r r = market_goal (filter_week None (fst (generate_sample_data demo_random exact (fresh 42)))) (market_r r)
        \<and> attainment_r r =
            (if 0 < goal_r r then
               py_round exact (PyFloat (fmul exact (exact (of_int (sales_r r) / of_int (goal_r r)))
                 (float_of_int exact 100))) 1
             else PyInt 0)"
    by blast
  from t [THEN conjunct2] r have len: "length rows = 5"
    and names: "set (map market_r rows) = set MARKETS" by auto
  have "''Dallas'' \<in> set MARKETS" by (simp add: MARKETS_def)
  with names have "''Dallas'' \<in> set (map market_r rows)" by simp
  then obtain x where x: "x \<in> set rows" "market_r x = ''Dallas''" by auto
  from each x have "sales_r x = market_sales (fst (generate_sample_data demo_random exact (fresh 42))) ''Dallas''"
    "goal_r x = market_goal (fst (generate_sample_data demo_random exact (fresh 42))) ''Dallas''"
    by (auto simp: filter_week_def)
  with r len x show ?thesis by (intro exI [of _ rows] exI [of _ x] conjI)
qed

end
